theory Spec2Isabelle
  imports Main "HOL-Library.Word"
begin

unbundle bit_operations_syntax

section \<open>Data model of the sequence batch scheduler\<close>

text \<open>
  The embedding follows \<^verbatim>\<open>src/sequence_batch_scheduler.cc\<close>. Objects reached through
  pointers are handles (natural numbers), a null pointer is \<open>None\<close>. Every operation that
  runs under a mutex is one atomic step of the model: the scheduler's \<^verbatim>\<open>Enqueue\<close>
  together with the hand-over to the batcher that follows its \<^verbatim>\<open>unlock\<close>, and one pass of
  the worker's loop body. A member \<^verbatim>\<open>x_\<close> of a class of the source is the field \<open>x'\<close>
  of its record.
\<close>

datatype error =
    Must_specify_batch_size_1
  | Must_specify_nonzero_correlation_ID
  | Must_specify_START_flag nat

datatype status = OK | InvalidArgument error | Failed nat

datatype log_entry =
    Warning_sequence_conflict nat
  | Error_backlog_conflict nat
  | Error_requests_after_end nat

record request_header =
  batch_size :: nat
  correlation_id :: nat
  flags :: "32 word"

text \<open>
  Modelled from the spec: the flag constants of \<^verbatim>\<open>InferRequestHeader\<close> are declared in
  the request protocol, which is not part of the sources at hand; the spec only says that
  the header has a flags bitfield including SEQUENCE_START and SEQUENCE_END. They are two
  distinct bits.
\<close>

definition FLAG_SEQUENCE_START :: "32 word" where
  "FLAG_SEQUENCE_START = 1"

definition FLAG_SEQUENCE_END :: "32 word" where
  "FLAG_SEQUENCE_END = 2"

definition seq_start_flag :: "request_header \<Rightarrow> bool" where
  "seq_start_flag h = ((flags h AND FLAG_SEQUENCE_START) \<noteq> 0)"

definition seq_end_flag :: "request_header \<Rightarrow> bool" where
  "seq_end_flag h = ((flags h AND FLAG_SEQUENCE_END) \<noteq> 0)"

record input_override =
  content' :: "8 word list"
  dims' :: "int list"
  datatype' :: nat

type_synonym InputOverrideMap = "(string \<times> input_override) list"

text \<open>
  A request provider: its header, whether it is the \<^verbatim>\<open>NULLInferRequestProvider\<close> that
  stands in for an empty slot, and the override set by \<^verbatim>\<open>SetInputOverride\<close>.
\<close>

record request_provider =
  RequestHeader :: request_header
  is_null_provider :: bool
  input_override' :: "InputOverrideMap option"

definition SetInputOverride :: "InputOverrideMap \<Rightarrow> request_provider \<Rightarrow> request_provider" where
  "SetInputOverride ov rp = rp\<lparr>input_override' := Some ov\<rparr>"

record payload =
  queue_timer' :: bool
  stats' :: "nat option"
  request_provider' :: request_provider
  response_provider' :: "nat option"
  complete_function' :: "nat option"
  status' :: status
  compute_status' :: status

text \<open>
  Modelled from the spec: the constructor of \<^verbatim>\<open>Scheduler::Payload\<close> is declared in the
  scheduler interface, which is not part of the sources at hand. A payload is the tuple
  (queue timer, stats, request provider, response provider, completion callback); its two
  statuses start as OK.
\<close>

definition Payload ::
  "bool \<Rightarrow> nat option \<Rightarrow> request_provider \<Rightarrow> nat option \<Rightarrow> nat option \<Rightarrow> payload" where
  "Payload queue_timer stats request_provider response_provider complete_function =
     \<lparr>queue_timer' = queue_timer, stats' = stats, request_provider' = request_provider,
      response_provider' = response_provider, complete_function' = complete_function,
      status' = OK, compute_status' = OK\<rparr>"

definition payload_cid :: "payload \<Rightarrow> nat" where
  "payload_cid p = correlation_id (RequestHeader (request_provider' p))"

definition payload_start :: "payload \<Rightarrow> bool" where
  "payload_start p = seq_start_flag (RequestHeader (request_provider' p))"

definition payload_end :: "payload \<Rightarrow> bool" where
  "payload_end p = seq_end_flag (RequestHeader (request_provider' p))"

datatype BatchSlot = BatchSlot (bs_batcher_idx: nat) (bs_slot: nat)

text \<open>
  One \<^verbatim>\<open>SequenceBatch\<close>. \<open>delay_cnt\<close> is the local variable of that name of the worker
  thread. \<open>max_active_slot'\<close> is an \<^verbatim>\<open>int32_t\<close>, slot indices are \<^verbatim>\<open>uint32_t\<close>; no
  arithmetic on them can overflow for fewer than \<open>2^31\<close> slots, so they are \<open>int\<close> and
  \<open>nat\<close>. The vectors are indexed without a bounds check in the source (undefined
  behaviour out of range); every index the scheduler produces is in range, which is part
  of the invariant \<open>sched_inv\<close> below.
\<close>

record sequence_batch =
  batcher_idx' :: nat
  scheduler_idle' :: bool
  queues' :: "payload list list"
  max_active_slot' :: int
  active_slots' :: "bool list"
  null_request_header' :: request_header
  start_input_overrides' :: InputOverrideMap
  continue_input_overrides' :: InputOverrideMap
  notready_input_overrides' :: InputOverrideMap
  delay_cnt :: nat

text \<open>
  The scheduler. The backlog queues are shared objects
  (\<^verbatim>\<open>std::shared_ptr<std::deque<Payload>>\<close>), held both by the list \<open>backlog_queues'\<close>
  and by the map \<open>sequence_to_backlog_map'\<close>: they live in the store \<open>backlog_store\<close>,
  \<open>backlog_next\<close> is the address \<^verbatim>\<open>make_shared\<close> returns next.

  Modelled from the spec: the declaration of \<open>ready_batch_slots'\<close> is in the scheduler's
  header, which is not part of the sources at hand; the code uses \<^verbatim>\<open>push\<close>,
  \<^verbatim>\<open>top\<close>, \<^verbatim>\<open>pop\<close> and \<^verbatim>\<open>empty\<close> only. The spec leaves the order of the pool open
  and allows LIFO: the pool is a stack, the head of the list its top.
\<close>

record scheduler =
  batchers' :: "sequence_batch list"
  ready_batch_slots' :: "BatchSlot list"
  sequence_to_batchslot_map' :: "nat \<rightharpoonup> BatchSlot"
  sequence_to_backlog_map' :: "nat \<rightharpoonup> nat"
  backlog_queues' :: "nat list"
  backlog_store :: "nat \<Rightarrow> payload list"
  backlog_next :: nat
  queue_request_cnts' :: "nat list"
  backlog_delay_cnt' :: nat

definition slot_queue :: "scheduler \<Rightarrow> BatchSlot \<Rightarrow> payload list" where
  "slot_queue s sl = queues' (batchers' s ! bs_batcher_idx sl) ! bs_slot sl"

definition all_slots :: "scheduler \<Rightarrow> BatchSlot set" where
  "all_slots s =
     {BatchSlot b k | b k. b < length (batchers' s) \<and> k < length (queues' (batchers' s ! b))}"

section \<open>Creation\<close>

record control_properties =
  tensor_name :: string
  tensor_datatype :: nat
  false_value :: "32 word"
  true_value :: "32 word"

text \<open>
  Modelled from the spec: \<^verbatim>\<open>GetSequenceControlProperties\<close> is not part of the sources at
  hand. Both controls are required, and the absence of one is a configuration error; the
  configuration carries what the function resolves for each control, or \<open>None\<close>.
\<close>

record model_config =
  max_batch_size :: int
  control_sequence_start :: "control_properties option"
  control_sequence_ready :: "control_properties option"

datatype config_error = Missing_control_sequence_start | Missing_control_sequence_ready

text \<open>The bytes of an \<^verbatim>\<open>int32_t\<close> as the source reads them through a byte pointer
  (little-endian, as the spec states).\<close>

definition int32_bytes :: "32 word \<Rightarrow> 8 word list" where
  "int32_bytes v = [ucast v, ucast (drop_bit 8 v), ucast (drop_bit 16 v), ucast (drop_bit 24 v)]"

definition make_override :: "32 word \<Rightarrow> nat \<Rightarrow> input_override" where
  "make_override v dt = \<lparr>content' = int32_bytes v, dims' = [1], datatype' = dt\<rparr>"

text \<open>\<^verbatim>\<open>insert\<close> of a map keeps an entry that is already there.\<close>

definition override_insert ::
  "string \<Rightarrow> input_override \<Rightarrow> InputOverrideMap \<Rightarrow> InputOverrideMap" where
  "override_insert name ov m = (if name \<in> fst ` set m then m else m @ [(name, ov)])"

definition CreateControlTensors ::
  "model_config \<Rightarrow> config_error + (InputOverrideMap \<times> InputOverrideMap \<times> InputOverrideMap)" where
  "CreateControlTensors config =
     (case control_sequence_start config of
        None \<Rightarrow> Inl Missing_control_sequence_start
      | Some c1 \<Rightarrow>
          (let false_override = make_override (false_value c1) (tensor_datatype c1);
               true_override = make_override (true_value c1) (tensor_datatype c1);
               start1 = override_insert (tensor_name c1) true_override [];
               cont1 = override_insert (tensor_name c1) false_override [];
               notready1 = override_insert (tensor_name c1) false_override []
           in case control_sequence_ready config of
                None \<Rightarrow> Inl Missing_control_sequence_ready
              | Some c2 \<Rightarrow>
                  (let false_override2 = make_override (false_value c2) (tensor_datatype c2);
                       true_override2 = make_override (true_value c2) (tensor_datatype c2)
                   in Inr (override_insert (tensor_name c2) true_override2 start1,
                           override_insert (tensor_name c2) true_override2 cont1,
                           override_insert (tensor_name c2) false_override2 notready1))))"

definition SequenceBatch ::
  "nat \<Rightarrow> nat \<Rightarrow> nat \<Rightarrow> InputOverrideMap \<Rightarrow> InputOverrideMap \<Rightarrow> InputOverrideMap
     \<Rightarrow> sequence_batch" where
  "SequenceBatch batcher_idx batch_sz delay start cont notready =
     \<lparr>batcher_idx' = batcher_idx, scheduler_idle' = False,
      queues' = replicate batch_sz [], max_active_slot' = - 1,
      active_slots' = replicate batch_sz False,
      null_request_header' = \<lparr>batch_size = 0, correlation_id = 0, flags = 0\<rparr>,
      start_input_overrides' = start, continue_input_overrides' = cont,
      notready_input_overrides' = notready, delay_cnt = delay\<rparr>"

definition Create_add_runner ::
  "nat \<Rightarrow> nat \<Rightarrow> InputOverrideMap \<Rightarrow> InputOverrideMap \<Rightarrow> InputOverrideMap
     \<Rightarrow> nat \<Rightarrow> scheduler \<Rightarrow> scheduler" where
  "Create_add_runner batch_sz delay start cont notready c sched =
     fold (\<lambda>b s. s\<lparr>ready_batch_slots' := BatchSlot c b # ready_batch_slots' s\<rparr>)
       [0..<batch_sz]
       (sched\<lparr>batchers' := batchers' sched @ [SequenceBatch c batch_sz delay start cont notready]\<rparr>)"

text \<open>
  \<open>backlog_delay\<close> and \<open>delay\<close> are the values of the two debugging environment variables
  (0 when unset).
\<close>

definition Create :: "model_config \<Rightarrow> nat \<Rightarrow> nat \<Rightarrow> nat \<Rightarrow> config_error + scheduler" where
  "Create config runner_cnt backlog_delay delay =
     (let sched = \<lparr>batchers' = [], ready_batch_slots' = [],
                   sequence_to_batchslot_map' = Map.empty,
                   sequence_to_backlog_map' = Map.empty,
                   backlog_queues' = [], backlog_store = (\<lambda>_. []), backlog_next = 0,
                   queue_request_cnts' = replicate runner_cnt 0,
                   backlog_delay_cnt' = backlog_delay\<rparr>;
          batch_sz = nat (max 1 (max_batch_size config))
      in case CreateControlTensors config of
           Inl e \<Rightarrow> Inl e
         | Inr (start, cont, notready) \<Rightarrow>
             Inr (fold (Create_add_runner batch_sz delay start cont notready)
                    [0..<runner_cnt] sched))"

section \<open>Enqueue\<close>

text \<open>\<^verbatim>\<open>SequenceBatch::Enqueue\<close>; the second component is \<open>wake_runner\<close>.\<close>

definition SequenceBatch_Enqueue ::
  "sequence_batch \<Rightarrow> nat \<Rightarrow> payload \<Rightarrow> sequence_batch \<times> bool" where
  "SequenceBatch_Enqueue sb slot p =
     (let sb1 = (if max_active_slot' sb = - 1
                 then sb\<lparr>null_request_header' := RequestHeader (request_provider' p)\<rparr>
                 else sb);
          sb2 = sb1\<lparr>queues' := (queues' sb1)[slot := queues' sb1 ! slot @ [p]]\<rparr>;
          sb3 = sb2\<lparr>active_slots' := (active_slots' sb2)[slot := True]\<rparr>;
          sb4 = sb3\<lparr>max_active_slot' := max (max_active_slot' sb3) (int slot)\<rparr>
      in (sb4, scheduler_idle' sb4))"

text \<open>
  How a call of \<^verbatim>\<open>SequenceBatchScheduler::Enqueue\<close> leaves the part it runs under the
  mutex \<^verbatim>\<open>mu_\<close>: the request is completed with an error; or it is in the backlog; or a
  slot is chosen, and \<open>batcher_idx_\<close> and \<open>slot_\<close> are read through \<open>target\<close>, the pointer
  into the node of the slot map. For a request that ends its sequence the node is erased
  first, and the read is a read of the erased node: \<open>Erased_node_read t\<close>, where \<open>t\<close> is
  the slot the node held when it was erased. What that read yields is not determined by
  the program.
\<close>

datatype enqueue_outcome =
  Completed status | Backlogged | Routed BatchSlot | Erased_node_read BatchSlot

text \<open>
  The routing decision of \<^verbatim>\<open>SequenceBatchScheduler::Enqueue\<close> (the chain of four
  branches): the new state and the slot in the node \<open>target\<close> points to, or \<open>None\<close> where
  the source returns.
\<close>

definition Enqueue_route ::
  "scheduler \<Rightarrow> nat \<Rightarrow> bool \<Rightarrow> payload \<Rightarrow> scheduler \<times> BatchSlot option" where
  "Enqueue_route s cid seq_end p =
     (case sequence_to_batchslot_map' s cid of
        Some target \<Rightarrow> (s, Some target)
      | None \<Rightarrow>
          (case sequence_to_backlog_map' s cid of
             Some bl \<Rightarrow>
               (let s1 = s\<lparr>backlog_store := (backlog_store s)(bl := backlog_store s bl @ [p])\<rparr>
                in (if seq_end
                    then s1\<lparr>sequence_to_backlog_map' := (sequence_to_backlog_map' s1)(cid := None)\<rparr>
                    else s1, None))
           | None \<Rightarrow>
               (case ready_batch_slots' s of
                  target # rest \<Rightarrow>
                    (s\<lparr>sequence_to_batchslot_map' := (sequence_to_batchslot_map' s)(cid \<mapsto> target),
                       ready_batch_slots' := rest\<rparr>, Some target)
                | [] \<Rightarrow>
                    (let backlog = backlog_next s;
                         s1 = s\<lparr>backlog_next := Suc backlog,
                                backlog_queues' := backlog_queues' s @ [backlog],
                                backlog_store := (backlog_store s)(backlog := [p])\<rparr>
                     in (if \<not> seq_end
                         then s1\<lparr>sequence_to_backlog_map' :=
                                   (sequence_to_backlog_map' s1)(cid \<mapsto> backlog)\<rparr>
                         else s1, None)))))"

text \<open>
  \<^verbatim>\<open>SequenceBatchScheduler::Enqueue\<close> up to \<^verbatim>\<open>lock.unlock()\<close>: the checks, the routing
  and, for a request that ends its sequence and has a slot, the erasure of its node from
  the slot map, after which \<open>target\<close> points into the erased node. The outcome
  \<open>Completed st\<close> is the immediate call \<^verbatim>\<open>OnComplete(st)\<close>. (The queue timer the source
  starts on the request's statistics object first is outside the scheduler's state.)
\<close>

definition Enqueue_locked ::
  "scheduler \<Rightarrow> nat \<Rightarrow> request_provider \<Rightarrow> nat option \<Rightarrow> nat
     \<Rightarrow> scheduler \<times> enqueue_outcome \<times> log_entry list" where
  "Enqueue_locked s stats request_provider response_provider OnComplete =
     (let request_header = RequestHeader request_provider in
      if batch_size request_header \<noteq> 1
      then (s, Completed (InvalidArgument Must_specify_batch_size_1), [])
      else
        let cid = correlation_id request_header in
        if cid = 0
        then (s, Completed (InvalidArgument Must_specify_nonzero_correlation_ID), [])
        else
          let seq_start = seq_start_flag request_header;
              seq_end = seq_end_flag request_header;
              sb_itr = sequence_to_batchslot_map' s cid;
              bl_itr = sequence_to_backlog_map' s cid
          in
          if \<not> seq_start \<and> sb_itr = None \<and> bl_itr = None
          then (s, Completed (InvalidArgument (Must_specify_START_flag cid)), [])
          else
            let lg = (if seq_start \<and> (sb_itr \<noteq> None \<or> bl_itr \<noteq> None)
                      then [Warning_sequence_conflict cid] else []);
                p = Payload True (Some stats) request_provider response_provider
                      (Some OnComplete)
            in case Enqueue_route s cid seq_end p of
                 (s1, None) \<Rightarrow> (s1, Backlogged, lg)
               | (s1, Some target) \<Rightarrow>
                   if seq_end
                   then (s1\<lparr>sequence_to_batchslot_map' :=
                              (sequence_to_batchslot_map' s1)(cid := None)\<rparr>,
                         Erased_node_read target, lg)
                   else (s1, Routed target, lg))"

text \<open>
  The end of \<^verbatim>\<open>SequenceBatchScheduler::Enqueue\<close>, after \<^verbatim>\<open>lock.unlock()\<close>: the payload is
  enqueued into the batcher \<open>batcher_idx\<close>, at \<open>slot\<close>, the two values read through
  \<open>target\<close>.
\<close>

definition Enqueue_handover :: "scheduler \<Rightarrow> BatchSlot \<Rightarrow> payload \<Rightarrow> scheduler" where
  "Enqueue_handover s target p =
     (let batcher_idx = bs_batcher_idx target;
          slot = bs_slot target
      in s\<lparr>batchers' := (batchers' s)
              [batcher_idx := fst (SequenceBatch_Enqueue (batchers' s ! batcher_idx) slot p)]\<rparr>)"

text \<open>
  A call of \<^verbatim>\<open>SequenceBatchScheduler::Enqueue\<close> that runs alone. Where the call reads the
  erased node, the state is the one it leaves under the mutex and the outcome says so:
  the call goes on with \<open>Enqueue_handover\<close> for whatever slot that read yields.
\<close>

definition Enqueue ::
  "scheduler \<Rightarrow> nat \<Rightarrow> request_provider \<Rightarrow> nat option \<Rightarrow> nat
     \<Rightarrow> scheduler \<times> enqueue_outcome \<times> log_entry list" where
  "Enqueue s stats request_provider response_provider OnComplete =
     (case Enqueue_locked s stats request_provider response_provider OnComplete of
        (s1, Routed target, lg) \<Rightarrow>
          (Enqueue_handover s1 target
             (Payload True (Some stats) request_provider response_provider (Some OnComplete)),
           Routed target, lg)
      | (s1, outcome, lg) \<Rightarrow> (s1, outcome, lg))"

section \<open>Releasing a slot\<close>

text \<open>
  \<^verbatim>\<open>SequenceBatchScheduler::ReleaseBatchSlot\<close>. The third component is the deque
  \<^verbatim>\<open>*payloads\<close> of the caller after the call, the second the returned flag. The deque
  moved from is left empty.
\<close>

definition ReleaseBatchSlot ::
  "scheduler \<Rightarrow> BatchSlot \<Rightarrow> payload list \<Rightarrow> scheduler \<times> bool \<times> payload list \<times> log_entry list" where
  "ReleaseBatchSlot s batch_slot payloads =
     (case backlog_queues' s of
        [] \<Rightarrow> (s\<lparr>ready_batch_slots' := batch_slot # ready_batch_slots' s\<rparr>, True, payloads, [])
      | backlog # rest \<Rightarrow>
          (let payloads' = backlog_store s backlog;
               s1 = s\<lparr>backlog_store := (backlog_store s)(backlog := []),
                      backlog_queues' := rest\<rparr>
           in if payloads' \<noteq> []
              then
                (let cid = payload_cid (last payloads');
                     seq_end = payload_end (last payloads')
                 in if \<not> seq_end
                    then (s1\<lparr>sequence_to_backlog_map' := (sequence_to_backlog_map' s1)(cid := None),
                             sequence_to_batchslot_map' :=
                               (sequence_to_batchslot_map' s1)(cid \<mapsto> batch_slot)\<rparr>,
                          False, payloads',
                          (if sequence_to_batchslot_map' s1 cid \<noteq> None
                           then [Error_backlog_conflict cid] else []))
                    else (s1, False, payloads', []))
              else (s1\<lparr>ready_batch_slots' := batch_slot # ready_batch_slots' s1\<rparr>,
                    True, payloads', [])))"

section \<open>The worker of a batcher\<close>

text \<open>\<^verbatim>\<open>SequenceBatchScheduler::DelayScheduler\<close> (debugging).\<close>

definition DelayScheduler :: "scheduler \<Rightarrow> nat \<Rightarrow> nat \<Rightarrow> nat \<Rightarrow> scheduler \<times> bool" where
  "DelayScheduler s batcher_idx cnt required =
     (let s1 = s\<lparr>queue_request_cnts' := (queue_request_cnts' s)[batcher_idx := cnt]\<rparr>;
          seen = sum_list (queue_request_cnts' s1)
      in if seen < required then (s1, True)
         else if backlog_delay_cnt' s1 > 0
              \<and> sum_list (map (\<lambda>q. length (backlog_store s1 q)) (backlog_queues' s1))
                  < backlog_delay_cnt' s1
         then (s1, True)
         else (s1, False))"

text \<open>The search for the largest slot index that has a payload available.\<close>

function find_max_slot :: "payload list list \<Rightarrow> int \<Rightarrow> int" where
  "find_max_slot queues max_slot =
     (if max_slot \<ge> 0 \<and> queues ! nat max_slot = []
      then find_max_slot queues (max_slot - 1) else max_slot)"
  by pat_completeness auto
termination
  by (relation "measure (\<lambda>(queues, max_slot). nat (max_slot + 1))") auto

text \<open>The search for the new \<open>max_active_slot'\<close> once sequences have ended.\<close>

function adjust_max_active_slot :: "bool list \<Rightarrow> int \<Rightarrow> int" where
  "adjust_max_active_slot active max_active =
     (if max_active \<ge> 0 \<and> \<not> active ! nat max_active
      then adjust_max_active_slot active (max_active - 1) else max_active)"
  by pat_completeness auto
termination
  by (relation "measure (\<lambda>(active, max_active). nat (max_active + 1))") auto

declare find_max_slot.simps [simp del] adjust_max_active_slot.simps [simp del]

text \<open>
  The body of the loop over the slots \<open>0 .. max_slot\<close> for the batcher at index \<open>b\<close>. It
  carries the scheduler, the batch \<open>payloads\<close> assembled so far, the flag
  \<open>adjust_max_active_slot\<close> and the log.
\<close>

type_synonym sweep = "scheduler \<times> payload list \<times> bool \<times> log_entry list"

definition null_payload :: "sequence_batch \<Rightarrow> payload" where
  "null_payload sb =
     Payload False None
       (SetInputOverride (notready_input_overrides' sb)
          \<lparr>RequestHeader = null_request_header' sb, is_null_provider = True,
           input_override' = None\<rparr>)
       None None"

definition collect_slot :: "nat \<Rightarrow> nat \<Rightarrow> sweep \<Rightarrow> sweep" where
  "collect_slot b slot = (\<lambda>(s, payloads, adjust, lg).
     (let sb = batchers' s ! b;
          queue = queues' sb ! slot
      in if queue = []
         then (s, payloads @ [null_payload sb], adjust, lg)
         else
           (let slot_payload = hd queue;
                request_header = RequestHeader (request_provider' slot_payload);
                request_provider =
                  (if seq_start_flag request_header
                   then SetInputOverride (start_input_overrides' sb) (request_provider' slot_payload)
                   else SetInputOverride (continue_input_overrides' sb)
                          (request_provider' slot_payload));
                payloads1 = payloads @
                  [Payload (queue_timer' slot_payload) (stats' slot_payload) request_provider
                     (response_provider' slot_payload) (complete_function' slot_payload)];
                queue1 = tl queue
            in if seq_end_flag request_header
               then
                 (let lg1 = (if queue1 \<noteq> [] then lg @ [Error_requests_after_end slot] else lg)
                  in case ReleaseBatchSlot s (BatchSlot (batcher_idx' sb) slot) queue1 of
                       (s1, released, queue2, lg2) \<Rightarrow>
                         (let sb1 = sb\<lparr>queues' := (queues' sb)[slot := queue2]\<rparr>;
                              sb2 = (if released
                                     then sb1\<lparr>active_slots' := (active_slots' sb1)[slot := False]\<rparr>
                                     else sb1)
                          in (s1\<lparr>batchers' := (batchers' s1)[b := sb2]\<rparr>, payloads1,
                              (if released \<and> int slot = max_active_slot' sb then True else adjust),
                              lg1 @ lg2)))
               else (s\<lparr>batchers' := (batchers' s)[b := sb\<lparr>queues' := (queues' sb)[slot := queue1]\<rparr>]\<rparr>,
                     payloads1, adjust, lg))))"

definition collect_slots :: "nat \<Rightarrow> nat \<Rightarrow> scheduler \<Rightarrow> sweep" where
  "collect_slots b n s = fold (collect_slot b) [0..<n] (s, [], False, [])"

text \<open>
  One pass of the loop of \<^verbatim>\<open>SequenceBatch::SchedulerThread\<close> for the batcher at index
  \<open>b\<close>: the new state, the batch (\<^verbatim>\<open>OnSchedule_\<close> is called with it exactly when it is
  not empty), \<open>wait_microseconds\<close> and the log.
\<close>

definition SchedulerThread_pass ::
  "scheduler \<Rightarrow> nat \<Rightarrow> scheduler \<times> payload list \<times> nat \<times> log_entry list" where
  "SchedulerThread_pass s b =
     (let sb = batchers' s ! b in
      if delay_cnt sb > 0
      then
        (let total_size = sum_list (map length (queues' sb))
         in case DelayScheduler s (batcher_idx' sb) total_size (delay_cnt sb) of
              (s1, wait) \<Rightarrow>
                (s1\<lparr>batchers' := (batchers' s1)
                      [b := (if \<not> wait then sb\<lparr>delay_cnt := 0\<rparr> else sb)]\<rparr>,
                 [], 10 * 1000, []))
      else
        (let max_slot = find_max_slot (queues' sb) (max_active_slot' sb)
         in if max_slot < 0 then (s, [], 500 * 1000, [])
            else
              (case collect_slots b (nat (max_slot + 1)) s of
                 (s1, payloads, adjust, lg) \<Rightarrow>
                   (let sb1 = batchers' s1 ! b;
                        sb2 = (if adjust
                               then sb1\<lparr>max_active_slot' :=
                                      adjust_max_active_slot (active_slots' sb1)
                                        (max_active_slot' sb1)\<rparr>
                               else sb1)
                    in (s1\<lparr>batchers' := (batchers' s1)[b := sb2]\<rparr>, payloads, 0, lg)))))"

text \<open>
  The body of the loop for a slot whose first request ends its sequence, in two halves:
  up to the call of \<^verbatim>\<open>ReleaseBatchSlot\<close> (the payload joins the batch and leaves the
  queue), and from that call on. In between the worker holds the mutex of its batcher,
  not \<^verbatim>\<open>mu_\<close>.
\<close>

definition collect_pop :: "nat \<Rightarrow> nat \<Rightarrow> sweep \<Rightarrow> sweep" where
  "collect_pop b slot = (\<lambda>(s, payloads, adjust, lg).
     (let sb = batchers' s ! b;
          queue = queues' sb ! slot;
          slot_payload = hd queue;
          request_header = RequestHeader (request_provider' slot_payload);
          request_provider =
            (if seq_start_flag request_header
             then SetInputOverride (start_input_overrides' sb) (request_provider' slot_payload)
             else SetInputOverride (continue_input_overrides' sb)
                    (request_provider' slot_payload));
          payloads1 = payloads @
            [Payload (queue_timer' slot_payload) (stats' slot_payload) request_provider
               (response_provider' slot_payload) (complete_function' slot_payload)];
          queue1 = tl queue;
          lg1 = (if queue1 \<noteq> [] then lg @ [Error_requests_after_end slot] else lg)
      in (s\<lparr>batchers' := (batchers' s)[b := sb\<lparr>queues' := (queues' sb)[slot := queue1]\<rparr>]\<rparr>,
          payloads1, adjust, lg1)))"

definition collect_release :: "nat \<Rightarrow> nat \<Rightarrow> sweep \<Rightarrow> sweep" where
  "collect_release b slot = (\<lambda>(s, payloads, adjust, lg).
     (let sb = batchers' s ! b
      in case ReleaseBatchSlot s (BatchSlot (batcher_idx' sb) slot) (queues' sb ! slot) of
           (s1, released, queue2, lg2) \<Rightarrow>
             (let sb1 = sb\<lparr>queues' := (queues' sb)[slot := queue2]\<rparr>;
                  sb2 = (if released
                         then sb1\<lparr>active_slots' := (active_slots' sb1)[slot := False]\<rparr>
                         else sb1)
              in (s1\<lparr>batchers' := (batchers' s1)[b := sb2]\<rparr>, payloads,
                  (if released \<and> int slot = max_active_slot' sb then True else adjust),
                  lg @ lg2))))"

text \<open>The end of the block that holds the mutex, after the loop over the slots.\<close>

definition finish_sweep :: "nat \<Rightarrow> bool \<Rightarrow> scheduler \<Rightarrow> scheduler" where
  "finish_sweep b adjust s =
     (let sb1 = batchers' s ! b;
          sb2 = (if adjust
                 then sb1\<lparr>max_active_slot' :=
                        adjust_max_active_slot (active_slots' sb1) (max_active_slot' sb1)\<rparr>
                 else sb1)
      in s\<lparr>batchers' := (batchers' s)[b := sb2]\<rparr>)"

section \<open>Completion of a batch\<close>

datatype completion_effect = SetModelExecutionCount nat nat | CompleteFunction nat status

definition payload_own_status :: "payload \<Rightarrow> status" where
  "payload_own_status p = (if status' p = OK then compute_status' p else status' p)"

text \<open>The first loop of \<^verbatim>\<open>OnCompleteQueuedPayloads\<close>: the status of the first payload
  without a completion function that has an error.\<close>

fun no_complete_error :: "payload list \<Rightarrow> status option" where
  "no_complete_error [] = None"
| "no_complete_error (p # ps) =
     (if complete_function' p = None \<and> payload_own_status p \<noteq> OK
      then Some (payload_own_status p) else no_complete_error ps)"

definition final_status :: "status \<Rightarrow> payload \<Rightarrow> status" where
  "final_status st p = (if st = OK then payload_own_status p else st)"

text \<open>The second loop: what is done for each payload, in the order of the batch.\<close>

fun complete_payloads :: "status \<Rightarrow> bool \<Rightarrow> payload list \<Rightarrow> completion_effect list list" where
  "complete_payloads st found_success [] = []"
| "complete_payloads st found_success (p # ps) =
     (let counted = (\<not> found_success \<and> final_status st p = OK \<and> stats' p \<noteq> None)
      in ((if counted then [SetModelExecutionCount (the (stats' p)) 1] else []) @
          (case complete_function' p of
             None \<Rightarrow> []
           | Some f \<Rightarrow> [CompleteFunction f (final_status st p)]))
         # complete_payloads st (if counted then True else found_success) ps)"

text \<open>The status the second loop works with: the status of the batch, or the error the
  first loop found.\<close>

definition batch_status :: "payload list \<Rightarrow> status \<Rightarrow> status" where
  "batch_status payloads st =
     (if st = OK then (case no_complete_error payloads of None \<Rightarrow> st | Some e \<Rightarrow> e) else st)"

definition OnCompleteQueuedPayloads :: "payload list \<Rightarrow> status \<Rightarrow> completion_effect list list" where
  "OnCompleteQueuedPayloads payloads st = complete_payloads (batch_status payloads st) False payloads"

section \<open>The scheduler and its threads\<close>

text \<open>
  The threads of a scheduler take two kinds of mutex: \<^verbatim>\<open>mu_\<close> of the scheduler (the maps,
  the pool, the backlog) and \<^verbatim>\<open>mu_\<close> of a batcher (its queues). A step of the system is
  a stretch of one thread between two lock operations:
  \<^item> a call of \<open>Enqueue\<close> runs up to \<^verbatim>\<open>lock.unlock()\<close>, leaving a hand-over to make when
    it has a slot;
  \<^item> a call of \<open>Enqueue\<close> that has a slot hands its payload over to the batcher, which
    needs the mutex of that batcher;
  \<^item> the worker of a batcher makes one step of its loop: it enters the block that holds
    the mutex of its batcher, handles one slot, calls \<^verbatim>\<open>ReleaseBatchSlot\<close> for the slot
    whose sequence ended, or leaves the block.
\<close>

text \<open>
  Where the worker of a batcher is: outside the block that holds the mutex of its
  batcher; in the loop over the slots, before the slot \<open>slot\<close>, with \<open>max_slot\<close>, the
  batch so far, the flag \<open>adjust_max_active_slot\<close> and the log; or in the body of that
  loop, between \<^verbatim>\<open>pop_front\<close> and the call of \<^verbatim>\<open>ReleaseBatchSlot\<close> for \<open>slot\<close>.
\<close>

datatype worker =
  Idle
| Sweeping nat int "payload list" bool "log_entry list"
| Releasing nat int "payload list" bool "log_entry list"

text \<open>
  The scheduler, the hand-overs still to make (the slot read through \<open>target\<close> and the
  payload), the workers, and two records of what happened: the payloads of the requests
  accepted (\<open>submitted\<close>, in the order in which the calls held \<^verbatim>\<open>mu_\<close>) and the batches
  handed to \<^verbatim>\<open>OnSchedule_\<close> with the index of the batcher (\<open>scheduled\<close>).
\<close>

record system =
  sched :: scheduler
  handovers :: "(BatchSlot \<times> payload) list"
  workers :: "worker list"
  submitted :: "payload list"
  scheduled :: "(nat \<times> payload list) list"

text \<open>
  \<open>Enqueue_event stats request_provider response_provider OnComplete r\<close> is the part of a
  call under \<^verbatim>\<open>mu_\<close>; \<open>r\<close> is what the read through \<open>target\<close> yields when the node has
  been erased (the program does not determine it), and is not looked at otherwise.
  \<open>Handover_event i\<close> is the hand-over at index \<open>i\<close>, \<open>Work_event b\<close> a step of the worker
  of the batcher at index \<open>b\<close>.
\<close>

datatype event =
  Enqueue_event nat request_provider "nat option" nat BatchSlot
| Handover_event nat
| Work_event nat

definition work_step :: "system \<Rightarrow> nat \<Rightarrow> system" where
  "work_step g b =
     (let s = sched g; sb = batchers' s ! b in
      case workers g ! b of
        Idle \<Rightarrow>
          if delay_cnt sb > 0 \<or> find_max_slot (queues' sb) (max_active_slot' sb) < 0
          then g\<lparr>sched := fst (SchedulerThread_pass s b)\<rparr>
          else g\<lparr>workers := (workers g)
                  [b := Sweeping 0 (find_max_slot (queues' sb) (max_active_slot' sb)) [] False []]\<rparr>
      | Sweeping slot max_slot payloads adjust lg \<Rightarrow>
          if int slot \<le> max_slot
          then
            if queues' sb ! slot \<noteq> []
               \<and> seq_end_flag (RequestHeader (request_provider' (hd (queues' sb ! slot))))
            then (case collect_pop b slot (s, payloads, adjust, lg) of
                    (s1, payloads1, adjust1, lg1) \<Rightarrow>
                      g\<lparr>sched := s1,
                        workers := (workers g)[b := Releasing slot max_slot payloads1 adjust1 lg1]\<rparr>)
            else (case collect_slot b slot (s, payloads, adjust, lg) of
                    (s1, payloads1, adjust1, lg1) \<Rightarrow>
                      g\<lparr>sched := s1,
                        workers := (workers g)
                          [b := Sweeping (Suc slot) max_slot payloads1 adjust1 lg1]\<rparr>)
          else
            g\<lparr>sched := finish_sweep b adjust s,
              workers := (workers g)[b := Idle],
              scheduled :=
                (if payloads \<noteq> [] then scheduled g @ [(batcher_idx' sb, payloads)]
                 else scheduled g)\<rparr>
      | Releasing slot max_slot payloads adjust lg \<Rightarrow>
          (case collect_release b slot (s, payloads, adjust, lg) of
             (s1, payloads1, adjust1, lg1) \<Rightarrow>
               g\<lparr>sched := s1,
                 workers := (workers g)[b := Sweeping (Suc slot) max_slot payloads1 adjust1 lg1]\<rparr>))"

fun exec_event :: "system \<Rightarrow> event \<Rightarrow> system" where
  "exec_event g (Enqueue_event st rp resp oc r) =
     (case Enqueue_locked (sched g) st rp resp oc of
        (s1, Completed e, lg) \<Rightarrow> g\<lparr>sched := s1\<rparr>
      | (s1, Backlogged, lg) \<Rightarrow>
          g\<lparr>sched := s1,
            submitted := submitted g @ [Payload True (Some st) rp resp (Some oc)]\<rparr>
      | (s1, Routed target, lg) \<Rightarrow>
          g\<lparr>sched := s1,
            handovers := handovers g @ [(target, Payload True (Some st) rp resp (Some oc))],
            submitted := submitted g @ [Payload True (Some st) rp resp (Some oc)]\<rparr>
      | (s1, Erased_node_read target, lg) \<Rightarrow>
          g\<lparr>sched := s1,
            handovers := handovers g @ [(r, Payload True (Some st) rp resp (Some oc))],
            submitted := submitted g @ [Payload True (Some st) rp resp (Some oc)]\<rparr>)"
| "exec_event g (Handover_event i) =
     (if i < length (handovers g)
         \<and> bs_batcher_idx (fst (handovers g ! i)) < length (workers g)
         \<and> workers g ! bs_batcher_idx (fst (handovers g ! i)) = Idle
      then g\<lparr>sched := Enqueue_handover (sched g) (fst (handovers g ! i)) (snd (handovers g ! i)),
             handovers := take i (handovers g) @ drop (Suc i) (handovers g)\<rparr>
      else g)"
| "exec_event g (Work_event b) =
     (if b < length (workers g) then work_step g b else g)"

text \<open>The system of a created scheduler, and its runs.\<close>

definition start :: "scheduler \<Rightarrow> system" where
  "start s = \<lparr>sched = s, handovers = [], workers = replicate (length (batchers' s)) Idle,
     submitted = [], scheduled = []\<rparr>"

definition run :: "scheduler \<Rightarrow> event list \<Rightarrow> system" where
  "run s evs = foldl exec_event (start s) evs"

text \<open>
  A step in which the read of the erased node, if the call makes one, yields the slot
  the node held.
\<close>

definition intact :: "system \<Rightarrow> event \<Rightarrow> bool" where
  "intact g ev =
     (case ev of
        Enqueue_event st rp resp oc r \<Rightarrow>
          (case Enqueue_locked (sched g) st rp resp oc of
             (s1, Erased_node_read target, lg) \<Rightarrow> r = target
           | (s1, outcome, lg) \<Rightarrow> True)
      | Handover_event i \<Rightarrow> True
      | Work_event b \<Rightarrow> True)"

fun intact_from :: "system \<Rightarrow> event list \<Rightarrow> bool" where
  "intact_from g [] = True"
| "intact_from g (ev # evs) = (intact g ev \<and> intact_from (exec_event g ev) evs)"

text \<open>
  The states of the system of a scheduler created for \<open>runner_cnt\<close> runners with the
  batch size \<open>batch_sz\<close>, as far as every read of an erased node yields the slot the node
  held. What the scheduler does after another read is left open.
\<close>

inductive reachable :: "nat \<Rightarrow> nat \<Rightarrow> system \<Rightarrow> bool" for runner_cnt batch_sz where
  created: "Create config runner_cnt backlog_delay delay = Inr s \<Longrightarrow>
     batch_sz = nat (max 1 (max_batch_size config)) \<Longrightarrow> reachable runner_cnt batch_sz (start s)"
| stepped: "reachable runner_cnt batch_sz g \<Longrightarrow> intact g ev \<Longrightarrow>
     reachable runner_cnt batch_sz (exec_event g ev)"

section \<open>Properties of states and batches\<close>

subsection \<open>Completion effects\<close>

fun is_count :: "completion_effect \<Rightarrow> bool" where
  "is_count (SetModelExecutionCount h n) = True"
| "is_count (CompleteFunction f st) = False"

text \<open>A payload is counted when a model execution count is set on its statistics.\<close>

definition counted :: "completion_effect list \<Rightarrow> bool" where
  "counted effs = list_ex is_count effs"

text \<open>A payload can take the count when its final status is OK and it has statistics.\<close>

definition eligible :: "status \<Rightarrow> payload \<Rightarrow> bool" where
  "eligible st p = (final_status st p = OK \<and> stats' p \<noteq> None)"

definition payload_effects :: "bool \<Rightarrow> status \<Rightarrow> payload \<Rightarrow> completion_effect list" where
  "payload_effects c st p =
     (if c then [SetModelExecutionCount (the (stats' p)) 1] else []) @
     (case complete_function' p of None \<Rightarrow> []
      | Some g \<Rightarrow> [CompleteFunction g (final_status st p)])"

subsection \<open>Assembled batches\<close>

text \<open>What a pass puts into the batch for a slot whose queue is \<open>q\<close>.\<close>

definition assembled :: "sequence_batch \<Rightarrow> payload list \<Rightarrow> payload" where
  "assembled sb q =
     (if q = [] then null_payload sb
      else Payload (queue_timer' (hd q)) (stats' (hd q))
             (SetInputOverride
                (if payload_start (hd q) then start_input_overrides' sb
                 else continue_input_overrides' sb)
                (request_provider' (hd q)))
             (response_provider' (hd q)) (complete_function' (hd q)))"

text \<open>What a sweep leaves untouched in the batcher it works for.\<close>

definition same_batcher :: "sequence_batch \<Rightarrow> sequence_batch \<Rightarrow> bool" where
  "same_batcher sb sb1 \<longleftrightarrow>
     batcher_idx' sb1 = batcher_idx' sb \<and> null_request_header' sb1 = null_request_header' sb
   \<and> start_input_overrides' sb1 = start_input_overrides' sb
   \<and> continue_input_overrides' sb1 = continue_input_overrides' sb
   \<and> notready_input_overrides' sb1 = notready_input_overrides' sb
   \<and> max_active_slot' sb1 = max_active_slot' sb
   \<and> length (queues' sb1) = length (queues' sb)
   \<and> length (active_slots' sb1) = length (active_slots' sb)"

subsection \<open>The invariant of the scheduler\<close>

text \<open>A queue holds requests of one sequence: they have one correlation ID and a completion
  function, and only the last of them may end the sequence.\<close>

definition seq_queue :: "payload list \<Rightarrow> bool" where
  "seq_queue q \<longleftrightarrow>
     (\<forall>p\<in>set q. payload_cid p = payload_cid (last q) \<and> complete_function' p \<noteq> None)
   \<and> (\<forall>p\<in>set (butlast q). \<not> payload_end p)"

text \<open>The queues of the backlog are distinct, allocated and not empty; a queue whose sequence
  goes on is the entry of that sequence in the backlog map, and the map has no other
  entries.\<close>

definition backlog_inv :: "scheduler \<Rightarrow> bool" where
  "backlog_inv s \<longleftrightarrow>
     distinct (backlog_queues' s)
   \<and> (\<forall>a\<in>set (backlog_queues' s).
        a < backlog_next s \<and> backlog_store s a \<noteq> [] \<and> seq_queue (backlog_store s a)
      \<and> (if payload_end (last (backlog_store s a))
          then (\<forall>c. sequence_to_backlog_map' s c \<noteq> Some a)
          else sequence_to_backlog_map' s (payload_cid (last (backlog_store s a))) = Some a))
   \<and> (\<forall>c a. sequence_to_backlog_map' s c = Some a \<longrightarrow>
        a \<in> set (backlog_queues' s) \<and> (\<forall>c'. sequence_to_backlog_map' s c' = Some a \<longrightarrow> c' = c))"

text \<open>The pool has no slot twice; a slot of the pool or of the slot map is a slot of the
  scheduler; a bound slot is not in the pool and is bound to one sequence, which is not in
  the backlog map.\<close>

definition maps_inv :: "scheduler \<Rightarrow> bool" where
  "maps_inv s \<longleftrightarrow>
     distinct (ready_batch_slots' s)
   \<and> set (ready_batch_slots' s) \<subseteq> all_slots s
   \<and> (\<forall>c t. sequence_to_batchslot_map' s c = Some t \<longrightarrow>
        t \<in> all_slots s \<and> t \<notin> set (ready_batch_slots' s)
      \<and> sequence_to_backlog_map' s c = None
      \<and> (\<forall>c'. sequence_to_batchslot_map' s c' = Some t \<longrightarrow> c' = c))"

text \<open>Every batcher knows its index, and its \<open>max_active_slot'\<close> is a slot index or -1.\<close>

definition batchers_wf :: "scheduler \<Rightarrow> bool" where
  "batchers_wf s \<longleftrightarrow>
     (\<forall>b<length (batchers' s).
        batcher_idx' (batchers' s ! b) = b
      \<and> - 1 \<le> max_active_slot' (batchers' s ! b)
      \<and> max_active_slot' (batchers' s ! b) < int (length (queues' (batchers' s ! b))))"

text \<open>There is a worker for every batcher, and a worker in its loop is at slots of its
  batcher.\<close>

fun worker_wf :: "nat \<Rightarrow> worker \<Rightarrow> bool" where
  "worker_wf n Idle = True"
| "worker_wf n (Sweeping slot max_slot payloads adjust lg) = (max_slot < int n)"
| "worker_wf n (Releasing slot max_slot payloads adjust lg) =
     (int slot \<le> max_slot \<and> max_slot < int n)"

definition workers_wf :: "system \<Rightarrow> bool" where
  "workers_wf g \<longleftrightarrow>
     length (workers g) = length (batchers' (sched g))
   \<and> (\<forall>b<length (workers g).
        worker_wf (length (queues' (batchers' (sched g) ! b))) (workers g ! b))"

text \<open>The worker is between \<^verbatim>\<open>pop_front\<close> and \<^verbatim>\<open>ReleaseBatchSlot\<close> for the slot \<open>k\<close>.\<close>

fun releasing :: "worker \<Rightarrow> nat \<Rightarrow> bool" where
  "releasing Idle k = False"
| "releasing (Sweeping slot max_slot payloads adjust lg) k = False"
| "releasing (Releasing slot max_slot payloads adjust lg) k = (slot = k)"

text \<open>
  The requests that end a sequence and are under way to the release of the slot \<open>t\<close>:
  those a call of \<open>Enqueue\<close> has still to hand over to \<open>t\<close>, those in the queue of \<open>t\<close>,
  and the one the worker has taken from that queue without having called
  \<^verbatim>\<open>ReleaseBatchSlot\<close> yet.
\<close>

definition ends :: "system \<Rightarrow> BatchSlot \<Rightarrow> nat" where
  "ends g t =
     length (filter (\<lambda>h. fst h = t \<and> payload_end (snd h)) (handovers g))
   + length (filter payload_end (slot_queue (sched g) t))
   + (if releasing (workers g ! bs_batcher_idx t) (bs_slot t) then 1 else 0)"

text \<open>The slots whose sequence has ended and that are not released yet.\<close>

definition ending :: "system \<Rightarrow> BatchSlot set" where
  "ending g =
     {t. (\<exists>h\<in>set (handovers g). fst h = t \<and> payload_end (snd h))
       \<or> (\<exists>p\<in>set (slot_queue (sched g) t). payload_end p)
       \<or> releasing (workers g ! bs_batcher_idx t) (bs_slot t)}"

text \<open>
  The invariant of the system: a slot is in the pool, or bound to a sequence, or exactly
  one request that ends a sequence is under way to its release.
\<close>

definition sys_inv :: "system \<Rightarrow> bool" where
  "sys_inv g \<longleftrightarrow>
     batchers_wf (sched g) \<and> workers_wf g \<and> maps_inv (sched g) \<and> backlog_inv (sched g)
   \<and> (\<forall>h\<in>set (handovers g). fst h \<in> all_slots (sched g))
   \<and> (\<forall>t\<in>all_slots (sched g).
        ends g t =
          (if t \<in> set (ready_batch_slots' (sched g))
              \<or> (\<exists>c. sequence_to_batchslot_map' (sched g) c = Some t)
           then 0 else 1))"

section \<open>Example configurations, requests and states\<close>

definition ex_control :: "string \<Rightarrow> control_properties" where
  "ex_control name = \<lparr>tensor_name = name, tensor_datatype = 0, false_value = 0, true_value = 1\<rparr>"

definition ex_config :: "int \<Rightarrow> model_config" where
  "ex_config n = \<lparr>max_batch_size = n, control_sequence_start = Some (ex_control ''START''),
     control_sequence_ready = Some (ex_control ''READY'')\<rparr>"

text \<open>A request of batch size 1 with the given correlation ID and flags
  (1 is START, 2 is END, 3 is both).\<close>

definition ex_request :: "nat \<Rightarrow> 32 word \<Rightarrow> request_provider" where
  "ex_request cid fl = \<lparr>RequestHeader = \<lparr>batch_size = 1, correlation_id = cid, flags = fl\<rparr>,
     is_null_provider = False, input_override' = None\<rparr>"

definition ex_payload :: "nat \<Rightarrow> 32 word \<Rightarrow> payload" where
  "ex_payload cid fl = Payload True (Some cid) (ex_request cid fl) None (Some cid)"

text \<open>The scheduler created for \<open>r\<close> runners and a maximal batch size \<open>n\<close>.\<close>

definition ex_sched :: "nat \<Rightarrow> int \<Rightarrow> scheduler" where
  "ex_sched r n = (case Create (ex_config n) r 0 0 of Inr s \<Rightarrow> s)"

text \<open>One runner with one slot: sequence 7 starts and takes the slot, sequence 8 starts and
  goes to the backlog, and sends a second request. Each call runs to its end before the
  next begins.\<close>

definition ex_states :: "nat \<Rightarrow> scheduler" where
  "ex_states n = sched (run (ex_sched 1 1)
     (concat (take n
        [[Enqueue_event 1 (ex_request 7 1) None 1 (BatchSlot 0 0), Handover_event 0],
         [Enqueue_event 2 (ex_request 8 1) None 2 (BatchSlot 0 0)],
         [Enqueue_event 3 (ex_request 8 0) None 3 (BatchSlot 0 0)]])))"

text \<open>A state whose backlog starts with an empty queue.\<close>

definition ex_empty_head :: scheduler where
  "ex_empty_head = (ex_states 2)\<lparr>backlog_queues' := [5, 0],
     backlog_store := (backlog_store (ex_states 2))(5 := [])\<rparr>"

text \<open>One runner with two slots: sequences 1 and 2 start and take the slots 1 and 0, the
  worker makes a pass (it enters the block, handles two slots and leaves the block), and
  sequence \<open>c\<close> sends a second request.\<close>

definition ex_two :: "nat \<Rightarrow> nat \<Rightarrow> scheduler" where
  "ex_two c n = sched (run (ex_sched 1 2)
     (concat (take n
        [[Enqueue_event 1 (ex_request 1 1) None 1 (BatchSlot 0 0), Handover_event 0],
         [Enqueue_event 2 (ex_request 2 1) None 2 (BatchSlot 0 0), Handover_event 0],
         [Work_event 0, Work_event 0, Work_event 0, Work_event 0],
         [Enqueue_event 3 (ex_request c 0) None 3 (BatchSlot 0 0), Handover_event 0]])))"

section \<open>Enqueue\<close>

lemma SequenceBatch_Enqueue_queues:
  "queues' (fst (SequenceBatch_Enqueue sb k p)) = (queues' sb)[k := queues' sb ! k @ [p]]"
  by (simp add: SequenceBatch_Enqueue_def Let_def)

lemma Enqueue_handover_slot_queue:
  assumes "t \<in> all_slots s"
  shows "slot_queue (Enqueue_handover s t p) = (slot_queue s)(t := slot_queue s t @ [p])"
proof
  fix sl
  obtain b k where t: "t = BatchSlot b k" by (cases t)
  obtain b' k' where sl: "sl = BatchSlot b' k'" by (cases sl)
  from assms t have r: "b < length (batchers' s)" "k < length (queues' (batchers' s ! b))"
    by (auto simp: all_slots_def)
  show "slot_queue (Enqueue_handover s t p) sl = ((slot_queue s)(t := slot_queue s t @ [p])) sl"
    using r by (auto simp: t sl slot_queue_def Enqueue_handover_def Let_def
        SequenceBatch_Enqueue_queues nth_list_update)
qed

text \<open>
  C5. A request whose batch size is not 1, or whose correlation ID is 0, or that does not
  carry SEQUENCE_START while its correlation ID is in neither map, is completed at once
  with an invalid-argument error, and \<open>Enqueue\<close> returns the scheduler it was given: the
  maps, the backlog, the pool and every queue are unchanged.
\<close>

theorem Enqueue_invalid_argument:
  assumes "batch_size (RequestHeader rp) \<noteq> 1 \<or> correlation_id (RequestHeader rp) = 0 \<or>
     (\<not> seq_start_flag (RequestHeader rp)
       \<and> sequence_to_batchslot_map' s (correlation_id (RequestHeader rp)) = None
       \<and> sequence_to_backlog_map' s (correlation_id (RequestHeader rp)) = None)"
  shows "\<exists>e. Enqueue s stats rp resp oc = (s, Completed (InvalidArgument e), [])"
  using assms by (auto simp: Enqueue_def Enqueue_locked_def Let_def)

theorem Enqueue_invalid_argument_witness:
  "\<not> seq_start_flag (RequestHeader (ex_request 9 0))
   \<and> sequence_to_batchslot_map' (ex_states 0) 9 = None
   \<and> sequence_to_backlog_map' (ex_states 0) 9 = None
   \<and> fst (Enqueue (ex_states 0) 1 (ex_request 9 0) None 1) = ex_states 0
   \<and> fst (snd (Enqueue (ex_states 0) 1 (ex_request 9 0) None 1)) =
         Completed (InvalidArgument (Must_specify_START_flag 9))"
proof -
  have c: "correlation_id (RequestHeader (ex_request 9 0)) = 9" by code_simp
  have h: "\<not> seq_start_flag (RequestHeader (ex_request 9 0))"
    "sequence_to_batchslot_map' (ex_states 0) 9 = None"
    "sequence_to_backlog_map' (ex_states 0) 9 = None"
    by code_simp+
  have o: "fst (snd (Enqueue (ex_states 0) 1 (ex_request 9 0) None 1)) =
         Completed (InvalidArgument (Must_specify_START_flag 9))"
    by code_simp
  from Enqueue_invalid_argument[of "ex_request 9 0" "ex_states 0" 1 None 1] h c
  have "fst (Enqueue (ex_states 0) 1 (ex_request 9 0) None 1) = ex_states 0" by auto
  with h o show ?thesis by blast
qed

text \<open>
  C1. A request that passes the three checks is routed by the four rows of the table: to
  the slot its correlation ID is bound to; else to the backlog queue of its correlation
  ID, at the tail, the entry of the map erased when the request carries SEQUENCE_END; else
  to the slot popped from the pool, which is bound to the correlation ID; else to a new
  queue at the tail of the backlog, entered in the map exactly when the request does not
  carry SEQUENCE_END. In the rows that choose a slot, a request without SEQUENCE_END is
  handed to the batcher of that slot, which appends the payload to the queue of the slot;
  for a request with SEQUENCE_END the call erases the binding and then reads the slot
  through the erased node, so the program does not determine where the payload goes.
\<close>

theorem Enqueue_routing_table:
  assumes "batch_size (RequestHeader rp) = 1"
    and "correlation_id (RequestHeader rp) = cid" and "cid \<noteq> 0"
    and "seq_start_flag (RequestHeader rp)
         \<or> sequence_to_batchslot_map' s cid \<noteq> None \<or> sequence_to_backlog_map' s cid \<noteq> None"
    and "p = Payload True (Some stats) rp resp (Some oc)"
    and "e = seq_end_flag (RequestHeader rp)"
  shows "(\<forall>t. sequence_to_batchslot_map' s cid = Some t \<longrightarrow>
            (if e
             then fst (Enqueue s stats rp resp oc) =
                    s\<lparr>sequence_to_batchslot_map' := (sequence_to_batchslot_map' s)(cid := None)\<rparr>
                \<and> fst (snd (Enqueue s stats rp resp oc)) = Erased_node_read t
             else fst (Enqueue s stats rp resp oc) =
                    s\<lparr>batchers' := (batchers' s)
                        [bs_batcher_idx t :=
                           fst (SequenceBatch_Enqueue (batchers' s ! bs_batcher_idx t) (bs_slot t) p)]\<rparr>
                \<and> fst (snd (Enqueue s stats rp resp oc)) = Routed t))
       \<and> (\<forall>bl. sequence_to_batchslot_map' s cid = None
              \<and> sequence_to_backlog_map' s cid = Some bl \<longrightarrow>
            fst (Enqueue s stats rp resp oc) =
              s\<lparr>backlog_store := (backlog_store s)(bl := backlog_store s bl @ [p]),
                sequence_to_backlog_map' :=
                  (if e then (sequence_to_backlog_map' s)(cid := None)
                   else sequence_to_backlog_map' s)\<rparr>
          \<and> fst (snd (Enqueue s stats rp resp oc)) = Backlogged)
       \<and> (\<forall>t rest. sequence_to_batchslot_map' s cid = None
              \<and> sequence_to_backlog_map' s cid = None
              \<and> ready_batch_slots' s = t # rest \<longrightarrow>
            (if e
             then fst (Enqueue s stats rp resp oc) =
                    s\<lparr>sequence_to_batchslot_map' := (sequence_to_batchslot_map' s)(cid := None),
                      ready_batch_slots' := rest\<rparr>
                \<and> fst (snd (Enqueue s stats rp resp oc)) = Erased_node_read t
             else fst (Enqueue s stats rp resp oc) =
                    s\<lparr>sequence_to_batchslot_map' := (sequence_to_batchslot_map' s)(cid \<mapsto> t),
                      ready_batch_slots' := rest,
                      batchers' := (batchers' s)
                        [bs_batcher_idx t :=
                           fst (SequenceBatch_Enqueue (batchers' s ! bs_batcher_idx t) (bs_slot t) p)]\<rparr>
                \<and> fst (snd (Enqueue s stats rp resp oc)) = Routed t))
       \<and> (sequence_to_batchslot_map' s cid = None
              \<and> sequence_to_backlog_map' s cid = None
              \<and> ready_batch_slots' s = [] \<longrightarrow>
            fst (Enqueue s stats rp resp oc) =
              s\<lparr>backlog_next := Suc (backlog_next s),
                backlog_queues' := backlog_queues' s @ [backlog_next s],
                backlog_store := (backlog_store s)(backlog_next s := [p]),
                sequence_to_backlog_map' :=
                  (if e then sequence_to_backlog_map' s
                   else (sequence_to_backlog_map' s)(cid \<mapsto> backlog_next s))\<rparr>
          \<and> fst (snd (Enqueue s stats rp resp oc)) = Backlogged)
       \<and> (\<forall>s1 t. t \<in> all_slots s1 \<longrightarrow>
            slot_queue
              (s1\<lparr>batchers' := (batchers' s1)
                  [bs_batcher_idx t :=
                     fst (SequenceBatch_Enqueue (batchers' s1 ! bs_batcher_idx t) (bs_slot t) p)]\<rparr>) =
              (slot_queue s1)(t := slot_queue s1 t @ [p]))"
proof -
  have "\<forall>s1 t. t \<in> all_slots s1 \<longrightarrow>
            slot_queue
              (s1\<lparr>batchers' := (batchers' s1)
                  [bs_batcher_idx t :=
                     fst (SequenceBatch_Enqueue (batchers' s1 ! bs_batcher_idx t) (bs_slot t) p)]\<rparr>) =
              (slot_queue s1)(t := slot_queue s1 t @ [p])"
    using Enqueue_handover_slot_queue by (simp add: Enqueue_handover_def Let_def)
  then show ?thesis
    using assms
    by (auto simp: Enqueue_def Enqueue_locked_def Enqueue_route_def Enqueue_handover_def Let_def)
qed

theorem Enqueue_routing_table_witness:
  "fst (snd (Enqueue (ex_states 0) 1 (ex_request 7 1) None 1)) = Routed (BatchSlot 0 0)
   \<and> fst (snd (Enqueue (ex_states 1) 4 (ex_request 7 0) None 4)) = Routed (BatchSlot 0 0)
   \<and> fst (snd (Enqueue (ex_states 1) 2 (ex_request 8 1) None 2)) = Backlogged
   \<and> fst (snd (Enqueue (ex_states 2) 3 (ex_request 8 0) None 3)) = Backlogged
   \<and> fst (snd (Enqueue (ex_states 1) 4 (ex_request 7 2) None 4)) = Erased_node_read (BatchSlot 0 0)"
proof -
  have h7: "batch_size (RequestHeader (ex_request 7 1)) = 1"
      "correlation_id (RequestHeader (ex_request 7 1)) = 7" "(7::nat) \<noteq> 0"
      "seq_start_flag (RequestHeader (ex_request 7 1))
         \<or> sequence_to_batchslot_map' (ex_states 0) 7 \<noteq> None
         \<or> sequence_to_backlog_map' (ex_states 0) 7 \<noteq> None"
    by code_simp+
  have e7: "\<not> seq_end_flag (RequestHeader (ex_request 7 1))" by code_simp
  have r3: "sequence_to_batchslot_map' (ex_states 0) 7 = None
              \<and> sequence_to_backlog_map' (ex_states 0) 7 = None
              \<and> ready_batch_slots' (ex_states 0) = BatchSlot 0 0 # []" by code_simp
  have c3: "fst (snd (Enqueue (ex_states 0) 1 (ex_request 7 1) None 1)) = Routed (BatchSlot 0 0)"
    using Enqueue_routing_table[OF h7 refl refl, of 1 None 1] r3 e7 by simp
  have h7': "batch_size (RequestHeader (ex_request 7 0)) = 1"
      "correlation_id (RequestHeader (ex_request 7 0)) = 7" "(7::nat) \<noteq> 0"
      "seq_start_flag (RequestHeader (ex_request 7 0))
         \<or> sequence_to_batchslot_map' (ex_states 1) 7 \<noteq> None
         \<or> sequence_to_backlog_map' (ex_states 1) 7 \<noteq> None"
    by code_simp+
  have e7': "\<not> seq_end_flag (RequestHeader (ex_request 7 0))" by code_simp
  have r1: "sequence_to_batchslot_map' (ex_states 1) 7 = Some (BatchSlot 0 0)" by code_simp
  have c1: "fst (snd (Enqueue (ex_states 1) 4 (ex_request 7 0) None 4)) = Routed (BatchSlot 0 0)"
    using Enqueue_routing_table[OF h7' refl refl, of 4 None 4] r1 e7' by simp
  have h8: "batch_size (RequestHeader (ex_request 8 1)) = 1"
      "correlation_id (RequestHeader (ex_request 8 1)) = 8" "(8::nat) \<noteq> 0"
      "seq_start_flag (RequestHeader (ex_request 8 1))
         \<or> sequence_to_batchslot_map' (ex_states 1) 8 \<noteq> None
         \<or> sequence_to_backlog_map' (ex_states 1) 8 \<noteq> None"
    by code_simp+
  have r4: "sequence_to_batchslot_map' (ex_states 1) 8 = None
              \<and> sequence_to_backlog_map' (ex_states 1) 8 = None
              \<and> ready_batch_slots' (ex_states 1) = []" by code_simp
  have c4: "fst (snd (Enqueue (ex_states 1) 2 (ex_request 8 1) None 2)) = Backlogged"
    using Enqueue_routing_table[OF h8 refl refl, of 2 None 2] r4 by blast
  have h8': "batch_size (RequestHeader (ex_request 8 0)) = 1"
      "correlation_id (RequestHeader (ex_request 8 0)) = 8" "(8::nat) \<noteq> 0"
      "seq_start_flag (RequestHeader (ex_request 8 0))
         \<or> sequence_to_batchslot_map' (ex_states 2) 8 \<noteq> None
         \<or> sequence_to_backlog_map' (ex_states 2) 8 \<noteq> None"
    by code_simp+
  have r2: "sequence_to_batchslot_map' (ex_states 2) 8 = None
              \<and> sequence_to_backlog_map' (ex_states 2) 8 = Some 0" by code_simp
  have c2: "fst (snd (Enqueue (ex_states 2) 3 (ex_request 8 0) None 3)) = Backlogged"
    using Enqueue_routing_table[OF h8' refl refl, of 3 None 3] r2 by blast
  have h7e: "batch_size (RequestHeader (ex_request 7 2)) = 1"
      "correlation_id (RequestHeader (ex_request 7 2)) = 7" "(7::nat) \<noteq> 0"
      "seq_start_flag (RequestHeader (ex_request 7 2))
         \<or> sequence_to_batchslot_map' (ex_states 1) 7 \<noteq> None
         \<or> sequence_to_backlog_map' (ex_states 1) 7 \<noteq> None"
    by code_simp+
  have e7e: "seq_end_flag (RequestHeader (ex_request 7 2))" by code_simp
  have c5: "fst (snd (Enqueue (ex_states 1) 4 (ex_request 7 2) None 4)) =
      Erased_node_read (BatchSlot 0 0)"
    using Enqueue_routing_table[OF h7e refl refl, of 4 None 4] r1 e7e by simp
  from c1 c2 c3 c4 c5 show ?thesis by blast
qed

text \<open>
  C9. A request that carries SEQUENCE_END and whose correlation ID is bound to a slot
  erases exactly that binding: the pool, the backlog map, the backlog and all queues are
  as before, and no other binding changes. The slot for the hand-over is then read
  through the erased node: the call does not deliver the payload to the slot that was
  bound, but to whatever that read yields.
\<close>

theorem Enqueue_sequence_end_reads_erased_node:
  assumes "batch_size (RequestHeader rp) = 1"
    and "correlation_id (RequestHeader rp) = cid" and "cid \<noteq> 0"
    and "seq_end_flag (RequestHeader rp)"
    and "sequence_to_batchslot_map' s cid = Some t"
  shows "Enqueue s stats rp resp oc =
           (s\<lparr>sequence_to_batchslot_map' := (sequence_to_batchslot_map' s)(cid := None)\<rparr>,
            Erased_node_read t,
            (if seq_start_flag (RequestHeader rp) then [Warning_sequence_conflict cid] else []))"
  using assms by (simp add: Enqueue_def Enqueue_locked_def Enqueue_route_def Let_def)

theorem Enqueue_sequence_end_reads_erased_node_witness:
  "seq_end_flag (RequestHeader (ex_request 7 2))
   \<and> sequence_to_batchslot_map' (ex_states 1) 7 = Some (BatchSlot 0 0)
   \<and> Enqueue (ex_states 1) 4 (ex_request 7 2) None 4 =
       ((ex_states 1)\<lparr>sequence_to_batchslot_map' :=
           (sequence_to_batchslot_map' (ex_states 1))(7 := None)\<rparr>,
        Erased_node_read (BatchSlot 0 0), [])
   \<and> slot_queue (fst (Enqueue (ex_states 1) 4 (ex_request 7 2) None 4)) (BatchSlot 0 0) =
       slot_queue (ex_states 1) (BatchSlot 0 0)"
proof -
  have h: "batch_size (RequestHeader (ex_request 7 2)) = 1"
      "correlation_id (RequestHeader (ex_request 7 2)) = 7" "(7::nat) \<noteq> 0"
      "seq_end_flag (RequestHeader (ex_request 7 2))"
      "sequence_to_batchslot_map' (ex_states 1) 7 = Some (BatchSlot 0 0)"
    by code_simp+
  have n: "\<not> seq_start_flag (RequestHeader (ex_request 7 2))" by code_simp
  from Enqueue_sequence_end_reads_erased_node[OF h, of 4 None 4] h(4,5) n
  show ?thesis by (simp add: slot_queue_def)
qed



text \<open>
  C10. A call removes the head of the backlog and nothing else from it. If the head queue
  is empty, the slot is pushed into the pool, true is returned, the caller's queue is
  left empty, and neither map is touched. What the call returns does not depend on any
  queue other than the head.
\<close>

theorem ReleaseBatchSlot_head_only:
  "backlog_queues' (fst (ReleaseBatchSlot s slot payloads)) = tl (backlog_queues' s)
   \<and> (\<forall>bl rest. backlog_queues' s = bl # rest \<and> backlog_store s bl = [] \<longrightarrow>
         ReleaseBatchSlot s slot payloads =
           (s\<lparr>backlog_store := (backlog_store s)(bl := []), backlog_queues' := rest,
              ready_batch_slots' := slot # ready_batch_slots' s\<rparr>, True, [], []))
   \<and> (\<forall>store2. store2 (hd (backlog_queues' s)) = backlog_store s (hd (backlog_queues' s)) \<longrightarrow>
         snd (ReleaseBatchSlot (s\<lparr>backlog_store := store2\<rparr>) slot payloads) =
         snd (ReleaseBatchSlot s slot payloads))"
  by (cases "backlog_queues' s") (auto simp: ReleaseBatchSlot_def Let_def)

theorem ReleaseBatchSlot_head_only_witness:
  "backlog_queues' ex_empty_head = [5, 0] \<and> backlog_store ex_empty_head 5 = []
   \<and> backlog_store ex_empty_head 0 \<noteq> []
   \<and> fst (snd (ReleaseBatchSlot ex_empty_head (BatchSlot 0 0) [])) = True
   \<and> backlog_queues' (fst (ReleaseBatchSlot ex_empty_head (BatchSlot 0 0) [])) = [0]
   \<and> ready_batch_slots' (fst (ReleaseBatchSlot ex_empty_head (BatchSlot 0 0) [])) = [BatchSlot 0 0]"
proof -
  have h: "backlog_queues' ex_empty_head = [5, 0]" "backlog_store ex_empty_head 5 = []"
     "backlog_store ex_empty_head 0 \<noteq> []" "ready_batch_slots' ex_empty_head = []"
    by code_simp+
  from ReleaseBatchSlot_head_only[of ex_empty_head "BatchSlot 0 0" "[]"] h
  show ?thesis by simp
qed
section \<open>Completion of a batch\<close>

lemma complete_payloads_Cons:
  "complete_payloads st f (p # ps) =
     payload_effects (\<not> f \<and> eligible st p) st p # complete_payloads st (f \<or> eligible st p) ps"
  by (auto simp: payload_effects_def eligible_def Let_def)

lemma counted_payload_effects: "counted (payload_effects c st p) = c"
  by (simp add: counted_def payload_effects_def split: option.splits)

lemma complete_payloads_length: "length (complete_payloads st f ps) = length ps"
  by (induction ps arbitrary: f) (simp_all only: complete_payloads.simps(1) complete_payloads_Cons list.size)

lemma complete_payloads_nth:
  "i < length ps \<Longrightarrow>
   complete_payloads st f ps ! i =
     payload_effects (\<not> f \<and> eligible st (ps ! i) \<and> (\<forall>j<i. \<not> eligible st (ps ! j))) st (ps ! i)"
proof (induction ps arbitrary: i f)
  case Nil then show ?case by simp
next
  case (Cons p ps)
  show ?case
  proof (cases i)
    case 0 then show ?thesis by (simp add: complete_payloads_Cons del: complete_payloads.simps)
  next
    case (Suc k)
    then have k: "k < length ps" using Cons.prems by simp
    have "(\<not> (f \<or> eligible st p) \<and> eligible st (ps ! k) \<and> (\<forall>j<k. \<not> eligible st (ps ! j)))
        = (\<not> f \<and> eligible st ((p # ps) ! i) \<and> (\<forall>j<i. \<not> eligible st ((p # ps) ! j)))"
      using Suc by (auto simp: less_Suc_eq_0_disj)
    then show ?thesis
      using Cons.IH[OF k, of "f \<or> eligible st p"] Suc
      by (simp add: complete_payloads_Cons del: complete_payloads.simps)
  qed
qed

lemma count_filter:
  "length (filter counted (complete_payloads st f ps)) =
     (if \<not> f \<and> list_ex (eligible st) ps then 1 else 0)"
  by (induction ps arbitrary: f)
     (simp_all add: complete_payloads_Cons counted_payload_effects
        del: complete_payloads.simps(2) length_0_conv)

text \<open>
  C8 (as amended). The payload that is counted is the first one in the order of the batch
  whose final status is OK and that has statistics; its count is set to 1 and no other
  payload's count is set. So exactly one payload is counted when such a payload exists,
  and none otherwise.
\<close>

theorem execution_accounting:
  assumes "effs = OnCompleteQueuedPayloads ps st" and "st1 = batch_status ps st"
  shows "length effs = length ps
       \<and> (\<forall>i<length ps. counted (effs ! i) =
             (eligible st1 (ps ! i) \<and> (\<forall>j<i. \<not> eligible st1 (ps ! j))))
       \<and> (\<forall>i<length ps. effs ! i =
             (if counted (effs ! i) then [SetModelExecutionCount (the (stats' (ps ! i))) 1] else []) @
             (case complete_function' (ps ! i) of None \<Rightarrow> []
              | Some g \<Rightarrow> [CompleteFunction g (final_status st1 (ps ! i))]))
       \<and> length (filter counted effs) = (if list_ex (eligible st1) ps then 1 else 0)"
proof -
  have e: "effs = complete_payloads st1 False ps"
    using assms by (simp add: OnCompleteQueuedPayloads_def batch_status_def)
  have 1: "length effs = length ps" by (simp add: e complete_payloads_length)
  have 2: "\<forall>i<length ps. counted (effs ! i) =
             (eligible st1 (ps ! i) \<and> (\<forall>j<i. \<not> eligible st1 (ps ! j)))"
    by (simp add: e complete_payloads_nth counted_payload_effects)
  have 3: "\<forall>i<length ps. effs ! i =
             (if counted (effs ! i) then [SetModelExecutionCount (the (stats' (ps ! i))) 1] else []) @
             (case complete_function' (ps ! i) of None \<Rightarrow> []
              | Some g \<Rightarrow> [CompleteFunction g (final_status st1 (ps ! i))])"
  proof (intro allI impI)
    fix i assume i: "i < length ps"
    have "effs ! i = payload_effects (counted (effs ! i)) st1 (ps ! i)"
      using i by (simp add: e complete_payloads_nth counted_payload_effects)
    then show "effs ! i =
             (if counted (effs ! i) then [SetModelExecutionCount (the (stats' (ps ! i))) 1] else []) @
             (case complete_function' (ps ! i) of None \<Rightarrow> []
              | Some g \<Rightarrow> [CompleteFunction g (final_status st1 (ps ! i))])"
      by (simp add: payload_effects_def)
  qed
  have 4: "length (filter counted effs) = (if list_ex (eligible st1) ps then 1 else 0)"
    by (simp add: e count_filter)
  from 1 2 3 4 show ?thesis by blast
qed

theorem execution_accounting_witness:
  "length (OnCompleteQueuedPayloads [ex_payload 1 1, ex_payload 2 1] OK) = 2
   \<and> counted (OnCompleteQueuedPayloads [ex_payload 1 1, ex_payload 2 1] OK ! 0)
   \<and> \<not> counted (OnCompleteQueuedPayloads [ex_payload 1 1, ex_payload 2 1] OK ! 1)
   \<and> length (filter counted (OnCompleteQueuedPayloads [ex_payload 1 1, ex_payload 2 1] OK)) = 1"
proof -
  have e: "eligible (batch_status [ex_payload 1 1, ex_payload 2 1] OK) (ex_payload 1 1)"
    by code_simp
  from execution_accounting[OF refl refl, of "[ex_payload 1 1, ex_payload 2 1]" OK] e
  show ?thesis by (auto simp: less_Suc_eq)
qed

text \<open>With a failed batch no payload is counted.\<close>

theorem execution_accounting_counterexample:
  "length (filter counted (OnCompleteQueuedPayloads [ex_payload 1 1, ex_payload 2 1] (Failed 1))) = 0"
  by code_simp

section \<open>The batch a pass assembles\<close>

lemma ReleaseBatchSlot_batchers:
  "batchers' (fst (ReleaseBatchSlot s sl q)) = batchers' s"
  by (simp add: ReleaseBatchSlot_def Let_def split: list.splits)

lemma assembled_same_batcher:
  "same_batcher sb sb1 \<Longrightarrow> assembled sb1 q = assembled sb q"
  by (simp add: same_batcher_def assembled_def null_payload_def)

lemma collect_slot_empty:
  "queues' (batchers' s ! b) ! k = [] \<Longrightarrow>
   collect_slot b k (s, ps, adj, lg) = (s, ps @ [assembled (batchers' s ! b) []], adj, lg)"
  by (simp add: collect_slot_def assembled_def)

lemma collect_slot_pop:
  "queues' (batchers' s ! b) ! k = q \<Longrightarrow> q \<noteq> [] \<Longrightarrow> \<not> payload_end (hd q) \<Longrightarrow>
   collect_slot b k (s, ps, adj, lg) =
     (s\<lparr>batchers' := (batchers' s)
          [b := (batchers' s ! b)\<lparr>queues' := (queues' (batchers' s ! b))[k := tl q]\<rparr>]\<rparr>,
      ps @ [assembled (batchers' s ! b) q], adj, lg)"
  by (simp add: collect_slot_def assembled_def payload_end_def payload_start_def Let_def)

lemma collect_slot_end:
  "queues' (batchers' s ! b) ! k = q \<Longrightarrow> q \<noteq> [] \<Longrightarrow> payload_end (hd q) \<Longrightarrow>
   ReleaseBatchSlot s (BatchSlot (batcher_idx' (batchers' s ! b)) k) (tl q) = (s2, rel, q2, lg2) \<Longrightarrow>
   collect_slot b k (s, ps, adj, lg) =
     (s2\<lparr>batchers' := (batchers' s2)
          [b := (if rel
                 then (batchers' s ! b)\<lparr>queues' := (queues' (batchers' s ! b))[k := q2],
                        active_slots' := (active_slots' (batchers' s ! b))[k := False]\<rparr>
                 else (batchers' s ! b)\<lparr>queues' := (queues' (batchers' s ! b))[k := q2]\<rparr>)]\<rparr>,
      ps @ [assembled (batchers' s ! b) q],
      (if rel \<and> int k = max_active_slot' (batchers' s ! b) then True else adj),
      (if tl q \<noteq> [] then lg @ [Error_requests_after_end k] else lg) @ lg2)"
  by (simp add: collect_slot_def assembled_def payload_end_def payload_start_def Let_def)

lemma collect_slot_step:
  assumes b: "b < length (batchers' s)"
    and c: "collect_slot b k (s, ps, adj, lg) = (s1, ps1, adj1, lg1)"
  shows "length (batchers' s1) = length (batchers' s)"
    and "same_batcher (batchers' s ! b) (batchers' s1 ! b)"
    and "\<forall>i. i \<noteq> k \<longrightarrow> queues' (batchers' s1 ! b) ! i = queues' (batchers' s ! b) ! i"
    and "\<forall>b1. b1 \<noteq> b \<longrightarrow> batchers' s1 ! b1 = batchers' s ! b1"
    and "ps1 = ps @ [assembled (batchers' s ! b) (queues' (batchers' s ! b) ! k)]"
proof -
  let ?sb = "batchers' s ! b"
  let ?q = "queues' ?sb ! k"
  obtain s2 rel q2 lg2 where r: "ReleaseBatchSlot s (BatchSlot (batcher_idx' ?sb) k) (tl ?q) = (s2, rel, q2, lg2)"
    by (cases "ReleaseBatchSlot s (BatchSlot (batcher_idx' ?sb) k) (tl ?q)") auto
  have b2: "batchers' s2 = batchers' s"
    using ReleaseBatchSlot_batchers[of s "BatchSlot (batcher_idx' ?sb) k" "tl ?q"] r by simp
  consider (empty) "?q = []" | (pop) "?q \<noteq> []" "\<not> payload_end (hd ?q)"
    | (ending) "?q \<noteq> []" "payload_end (hd ?q)" by blast
  then have "length (batchers' s1) = length (batchers' s)
     \<and> same_batcher (batchers' s ! b) (batchers' s1 ! b)
     \<and> (\<forall>i. i \<noteq> k \<longrightarrow> queues' (batchers' s1 ! b) ! i = queues' (batchers' s ! b) ! i)
     \<and> (\<forall>b1. b1 \<noteq> b \<longrightarrow> batchers' s1 ! b1 = batchers' s ! b1)
     \<and> ps1 = ps @ [assembled (batchers' s ! b) (queues' (batchers' s ! b) ! k)]"
  proof cases
    case empty
    with c show ?thesis by (auto simp: collect_slot_empty same_batcher_def)
  next
    case pop
    from c show ?thesis
      unfolding collect_slot_pop[OF refl pop] using b by (auto simp: same_batcher_def)
  next
    case ending
    from c show ?thesis
      unfolding collect_slot_end[OF refl ending r] using b b2 by (auto simp: same_batcher_def)
  qed
  then show "length (batchers' s1) = length (batchers' s)"
    and "same_batcher (batchers' s ! b) (batchers' s1 ! b)"
    and "\<forall>i. i \<noteq> k \<longrightarrow> queues' (batchers' s1 ! b) ! i = queues' (batchers' s ! b) ! i"
    and "\<forall>b1. b1 \<noteq> b \<longrightarrow> batchers' s1 ! b1 = batchers' s ! b1"
    and "ps1 = ps @ [assembled (batchers' s ! b) (queues' (batchers' s ! b) ! k)]"
    by blast+
qed

lemma collect_slots_Suc:
  "collect_slots b (Suc n) s = collect_slot b n (collect_slots b n s)"
  by (simp add: collect_slots_def)

lemma collect_slots_0: "collect_slots b 0 s = (s, [], False, [])"
  by (simp add: collect_slots_def)

lemma same_batcher_refl: "same_batcher sb sb"
  by (simp add: same_batcher_def)

lemma same_batcher_trans: "same_batcher a b \<Longrightarrow> same_batcher b c \<Longrightarrow> same_batcher a c"
  by (simp add: same_batcher_def)

lemma collect_slots_frame:
  assumes b: "b < length (batchers' s)"
  shows "length (batchers' (fst (collect_slots b n s))) = length (batchers' s)
       \<and> same_batcher (batchers' s ! b) (batchers' (fst (collect_slots b n s)) ! b)
       \<and> (\<forall>i\<ge>n. queues' (batchers' (fst (collect_slots b n s)) ! b) ! i = queues' (batchers' s ! b) ! i)
       \<and> (\<forall>b1. b1 \<noteq> b \<longrightarrow> batchers' (fst (collect_slots b n s)) ! b1 = batchers' s ! b1)
       \<and> fst (snd (collect_slots b n s)) =
           map (\<lambda>i. assembled (batchers' s ! b) (queues' (batchers' s ! b) ! i)) [0..<n]"
proof (induction n)
  case 0
  show ?case by (simp add: collect_slots_0 same_batcher_refl)
next
  case (Suc n)
  obtain s1 ps adj lg where p: "collect_slots b n s = (s1, ps, adj, lg)"
    by (cases "collect_slots b n s") auto
  obtain s2 ps2 adj2 lg2 where q: "collect_slot b n (s1, ps, adj, lg) = (s2, ps2, adj2, lg2)"
    by (cases "collect_slot b n (s1, ps, adj, lg)") auto
  from Suc p have ih: "length (batchers' s1) = length (batchers' s)"
      "same_batcher (batchers' s ! b) (batchers' s1 ! b)"
      "\<forall>i\<ge>n. queues' (batchers' s1 ! b) ! i = queues' (batchers' s ! b) ! i"
      "\<forall>b1. b1 \<noteq> b \<longrightarrow> batchers' s1 ! b1 = batchers' s ! b1"
      "ps = map (\<lambda>i. assembled (batchers' s ! b) (queues' (batchers' s ! b) ! i)) [0..<n]"
    by simp_all
  have b1: "b < length (batchers' s1)" using b ih(1) by simp
  note st = collect_slot_step[OF b1 q]
  have e: "collect_slots b (Suc n) s = (s2, ps2, adj2, lg2)"
    by (simp add: collect_slots_Suc p q)
  have "ps2 = map (\<lambda>i. assembled (batchers' s ! b) (queues' (batchers' s ! b) ! i)) [0..<Suc n]"
    using st(5) ih(2,3,5) by (simp add: assembled_same_batcher)
  moreover have "same_batcher (batchers' s ! b) (batchers' s2 ! b)"
    using ih(2) st(2) by (rule same_batcher_trans)
  moreover have "\<forall>i\<ge>Suc n. queues' (batchers' s2 ! b) ! i = queues' (batchers' s ! b) ! i"
    using st(3) ih(3) by simp
  moreover have "\<forall>b1. b1 \<noteq> b \<longrightarrow> batchers' s2 ! b1 = batchers' s ! b1"
    using st(4) ih(4) by simp
  ultimately show ?case using st(1) ih(1) by (simp add: e)
qed


lemma find_max_slot_le: "find_max_slot qs m \<le> m"
proof (induction qs m rule: find_max_slot.induct)
  case (1 queues max_slot)
  show ?case
  proof (cases "max_slot \<ge> 0 \<and> queues ! nat max_slot = []")
    case True
    then have "find_max_slot queues max_slot = find_max_slot queues (max_slot - 1)"
      by (subst find_max_slot.simps) simp
    with 1 True show ?thesis by simp
  next
    case False
    then have "find_max_slot queues max_slot = max_slot"
      by (subst find_max_slot.simps) auto
    then show ?thesis by simp
  qed
qed

lemma find_max_slot_nonempty:
  "0 \<le> find_max_slot qs m \<Longrightarrow> qs ! nat (find_max_slot qs m) \<noteq> []"
proof (induction qs m rule: find_max_slot.induct)
  case (1 queues max_slot)
  show ?case
  proof (cases "max_slot \<ge> 0 \<and> queues ! nat max_slot = []")
    case True
    then have e: "find_max_slot queues max_slot = find_max_slot queues (max_slot - 1)"
      by (subst find_max_slot.simps) simp
    with 1 True show ?thesis by simp
  next
    case False
    then have e: "find_max_slot queues max_slot = max_slot"
      by (subst find_max_slot.simps) auto
    with False "1.prems" show ?thesis by simp
  qed
qed

lemma find_max_slot_above:
  "find_max_slot qs m < j \<Longrightarrow> j \<le> m \<Longrightarrow> 0 \<le> j \<Longrightarrow> qs ! nat j = []"
proof (induction qs m rule: find_max_slot.induct)
  case (1 queues max_slot)
  show ?case
  proof (cases "max_slot \<ge> 0 \<and> queues ! nat max_slot = []")
    case True
    then have e: "find_max_slot queues max_slot = find_max_slot queues (max_slot - 1)"
      by (subst find_max_slot.simps) simp
    show ?thesis
    proof (cases "j = max_slot")
      case True with \<open>max_slot \<ge> 0 \<and> queues ! nat max_slot = []\<close> show ?thesis by simp
    next
      case False
      with "1.prems" have "j \<le> max_slot - 1" by simp
      with 1 True e show ?thesis by simp
    qed
  next
    case False
    then have e: "find_max_slot queues max_slot = max_slot"
      by (subst find_max_slot.simps) auto
    with "1.prems" show ?thesis by simp
  qed
qed

lemma pass_batch:
  assumes b: "b < length (batchers' s)"
    and p: "SchedulerThread_pass s b = (s1, payloads, wait, lg)"
    and ne: "payloads \<noteq> []"
  shows "delay_cnt (batchers' s ! b) = 0
       \<and> 0 \<le> find_max_slot (queues' (batchers' s ! b)) (max_active_slot' (batchers' s ! b))
       \<and> payloads = map (\<lambda>i. assembled (batchers' s ! b) (queues' (batchers' s ! b) ! i))
           [0..<nat (find_max_slot (queues' (batchers' s ! b)) (max_active_slot' (batchers' s ! b)) + 1)]"
proof -
  let ?sb = "batchers' s ! b"
  let ?m = "find_max_slot (queues' ?sb) (max_active_slot' ?sb)"
  have d: "delay_cnt ?sb = 0"
    using p ne by (auto simp: SchedulerThread_pass_def Let_def split: prod.splits if_splits)
  have m: "0 \<le> ?m"
    using p ne d by (auto simp: SchedulerThread_pass_def Let_def split: prod.splits if_splits)
  have "payloads = fst (snd (collect_slots b (nat (?m + 1)) s))"
    using p d m by (auto simp: SchedulerThread_pass_def Let_def split: prod.splits if_splits)
  with collect_slots_frame[OF b, of "nat (?m + 1)"] d m show ?thesis by simp
qed


text \<open>
  C6 (as amended). A batch handed to \<open>OnSchedule\<close> has the length \<open>max_slot + 1\<close>,
  where \<open>max_slot\<close> is the largest slot index up to \<open>max_active_slot'\<close> whose queue is
  not empty when the batch is assembled (so the length is at most
  \<open>max_active_slot' + 1\<close>); every position of the batch whose queue was empty holds a
  placeholder built from the cached null request header with the NOT-READY overrides, no
  completion function and no statistics.
\<close>

theorem batch_shape:
  assumes "b < length (batchers' s)" and "sb = batchers' s ! b"
    and "SchedulerThread_pass s b = (s1, payloads, wait, lg)" and "payloads \<noteq> []"
    and "max_slot = find_max_slot (queues' sb) (max_active_slot' sb)"
  shows "int (length payloads) = max_slot + 1 \<and> max_slot \<le> max_active_slot' sb
       \<and> queues' sb ! nat max_slot \<noteq> []
       \<and> (\<forall>j. max_slot < j \<and> j \<le> max_active_slot' sb \<longrightarrow> queues' sb ! nat j = [])
       \<and> (\<forall>i<length payloads. queues' sb ! i = [] \<longrightarrow>
             payloads ! i =
               Payload False None
                 \<lparr>RequestHeader = null_request_header' sb, is_null_provider = True,
                  input_override' = Some (notready_input_overrides' sb)\<rparr> None None)"
proof -
  note pb = pass_batch[OF assms(1,3,4), folded assms(2), folded assms(5)]
  from pb have m: "0 \<le> max_slot" by simp
  from pb have len: "int (length payloads) = max_slot + 1" by simp
  have le: "max_slot \<le> max_active_slot' sb"
    unfolding assms(5) by (rule find_max_slot_le)
  have ne: "queues' sb ! nat max_slot \<noteq> []"
    using m unfolding assms(5) by (rule find_max_slot_nonempty)
  have ab: "\<forall>j. max_slot < j \<and> j \<le> max_active_slot' sb \<longrightarrow> queues' sb ! nat j = []"
    using m find_max_slot_above[of "queues' sb" "max_active_slot' sb"] unfolding assms(5) by auto
  have "\<forall>i<length payloads. payloads ! i = assembled sb (queues' sb ! i)"
    using pb by simp
  then have nul: "\<forall>i<length payloads. queues' sb ! i = [] \<longrightarrow>
             payloads ! i =
               Payload False None
                 \<lparr>RequestHeader = null_request_header' sb, is_null_provider = True,
                  input_override' = Some (notready_input_overrides' sb)\<rparr> None None"
    by (simp add: assembled_def null_payload_def SetInputOverride_def)
  from len le ne ab nul show ?thesis by blast
qed

theorem batch_shape_witness:
  "length (fst (snd (SchedulerThread_pass (ex_two 1 4) 0))) = 2
   \<and> find_max_slot (queues' (batchers' (ex_two 1 4) ! 0))
        (max_active_slot' (batchers' (ex_two 1 4) ! 0)) = 1
   \<and> queues' (batchers' (ex_two 1 4) ! 0) ! 0 = []
   \<and> is_null_provider (request_provider' (fst (snd (SchedulerThread_pass (ex_two 1 4) 0)) ! 0))"
proof -
  obtain s1 payloads wait lg where p: "SchedulerThread_pass (ex_two 1 4) 0 = (s1, payloads, wait, lg)"
    by (cases "SchedulerThread_pass (ex_two 1 4) 0") auto
  have b: "0 < length (batchers' (ex_two 1 4))" by code_simp
  have ne: "fst (snd (SchedulerThread_pass (ex_two 1 4) 0)) \<noteq> []" by code_simp
  then have ne': "payloads \<noteq> []" using p by simp
  have m: "find_max_slot (queues' (batchers' (ex_two 1 4) ! 0))
        (max_active_slot' (batchers' (ex_two 1 4) ! 0)) = 1" by code_simp
  have q: "queues' (batchers' (ex_two 1 4) ! 0) ! 0 = []" by code_simp
  from batch_shape[OF b refl p ne' refl] m q p show ?thesis by (simp add: Payload_def)
qed

text \<open>Slot 1 is active and waits for its next request, slot 0 has one: the batch has
  length 1 while \<open>max_active_slot'\<close> is 1.\<close>

theorem batch_shape_counterexample:
  "max_active_slot' (batchers' (ex_two 2 4) ! 0) = 1
   \<and> length (fst (snd (SchedulerThread_pass (ex_two 2 4) 0))) = 1"
  by code_simp

text \<open>
  C7. In a batch handed to \<open>OnSchedule\<close>, a position whose queue was empty holds a
  placeholder with the NOT-READY overrides; any other position holds the head of its
  queue, with the START overrides attached to its request when the header carries
  SEQUENCE_START and the CONTINUE overrides otherwise.
\<close>

theorem batch_overrides:
  assumes "b < length (batchers' s)" and "sb = batchers' s ! b"
    and "SchedulerThread_pass s b = (s1, payloads, wait, lg)" and "payloads \<noteq> []"
  shows "\<forall>i<length payloads.
      (queues' sb ! i = [] \<longrightarrow>
         is_null_provider (request_provider' (payloads ! i))
       \<and> complete_function' (payloads ! i) = None
       \<and> input_override' (request_provider' (payloads ! i)) = Some (notready_input_overrides' sb))
    \<and> (queues' sb ! i \<noteq> [] \<longrightarrow>
         payloads ! i =
           Payload (queue_timer' (hd (queues' sb ! i))) (stats' (hd (queues' sb ! i)))
             ((request_provider' (hd (queues' sb ! i)))
                \<lparr>input_override' :=
                   Some (if seq_start_flag (RequestHeader (request_provider' (hd (queues' sb ! i))))
                         then start_input_overrides' sb else continue_input_overrides' sb)\<rparr>)
             (response_provider' (hd (queues' sb ! i)))
             (complete_function' (hd (queues' sb ! i))))"
proof -
  note pb = pass_batch[OF assms(1,3,4), folded assms(2)]
  have "\<forall>i<length payloads. payloads ! i = assembled sb (queues' sb ! i)"
    using pb by simp
  then show ?thesis
    by (simp add: assembled_def null_payload_def SetInputOverride_def Payload_def payload_start_def)
qed

theorem batch_overrides_witness:
  "map (\<lambda>p. input_override' (request_provider' p)) (fst (snd (SchedulerThread_pass (ex_two 1 2) 0)))
     = [Some (start_input_overrides' (batchers' (ex_two 1 2) ! 0)),
        Some (start_input_overrides' (batchers' (ex_two 1 2) ! 0))]
   \<and> map (\<lambda>p. input_override' (request_provider' p)) (fst (snd (SchedulerThread_pass (ex_two 1 4) 0)))
     = [Some (notready_input_overrides' (batchers' (ex_two 1 4) ! 0)),
        Some (continue_input_overrides' (batchers' (ex_two 1 4) ! 0))]"
proof -
  obtain s1 payloads wait lg where p: "SchedulerThread_pass (ex_two 1 2) 0 = (s1, payloads, wait, lg)"
    by (cases "SchedulerThread_pass (ex_two 1 2) 0") auto
  obtain s1' payloads' wait' lg' where p': "SchedulerThread_pass (ex_two 1 4) 0 = (s1', payloads', wait', lg')"
    by (cases "SchedulerThread_pass (ex_two 1 4) 0") auto
  have b: "0 < length (batchers' (ex_two 1 2))" "0 < length (batchers' (ex_two 1 4))" by code_simp+
  have l: "length (fst (snd (SchedulerThread_pass (ex_two 1 2) 0))) = 2"
    "length (fst (snd (SchedulerThread_pass (ex_two 1 4) 0))) = 2" by code_simp+
  have q: "queues' (batchers' (ex_two 1 2) ! 0) ! 0 \<noteq> []" "queues' (batchers' (ex_two 1 2) ! 0) ! 1 \<noteq> []"
    "seq_start_flag (RequestHeader (request_provider' (hd (queues' (batchers' (ex_two 1 2) ! 0) ! 0))))"
    "seq_start_flag (RequestHeader (request_provider' (hd (queues' (batchers' (ex_two 1 2) ! 0) ! 1))))"
    "queues' (batchers' (ex_two 1 4) ! 0) ! 0 = []" "queues' (batchers' (ex_two 1 4) ! 0) ! 1 \<noteq> []"
    "\<not> seq_start_flag (RequestHeader (request_provider' (hd (queues' (batchers' (ex_two 1 4) ! 0) ! 1))))"
    by code_simp+
  have ne: "payloads \<noteq> []" "payloads' \<noteq> []" using l p p' by auto
  have len: "length payloads = 2" "length payloads' = 2" using l p p' by auto
  from batch_overrides[OF b(1) refl p ne(1)] len(1) q(1-4)
  have 1: "map (\<lambda>p. input_override' (request_provider' p)) payloads
     = [Some (start_input_overrides' (batchers' (ex_two 1 2) ! 0)),
        Some (start_input_overrides' (batchers' (ex_two 1 2) ! 0))]"
    by (cases payloads; cases "tl payloads") (auto simp: Payload_def less_Suc_eq)
  from batch_overrides[OF b(2) refl p' ne(2)] len(2) q(5-7)
  have 2: "map (\<lambda>p. input_override' (request_provider' p)) payloads'
     = [Some (notready_input_overrides' (batchers' (ex_two 1 4) ! 0)),
        Some (continue_input_overrides' (batchers' (ex_two 1 4) ! 0))]"
    by (cases payloads'; cases "tl payloads'") (auto simp: Payload_def less_Suc_eq)
  from 1 2 p p' show ?thesis by simp
qed

section \<open>Slots, queues and the created scheduler\<close>

lemma seq_queue_Nil: "seq_queue []"
  by (simp add: seq_queue_def)

lemma seq_queue_single: "complete_function' p \<noteq> None \<Longrightarrow> seq_queue [p]"
  by (simp add: seq_queue_def)

lemma seq_queue_snoc:
  "seq_queue q \<Longrightarrow> complete_function' p \<noteq> None \<Longrightarrow>
   (q \<noteq> [] \<Longrightarrow> payload_cid (last q) = payload_cid p \<and> \<not> payload_end (last q)) \<Longrightarrow>
   seq_queue (q @ [p])"
  by (cases q rule: rev_cases) (auto simp: seq_queue_def butlast_append)

lemma seq_queue_tl: "seq_queue q \<Longrightarrow> seq_queue (tl q)"
  by (cases q; cases "tl q") (auto simp: seq_queue_def dest: in_set_butlastD)

lemma last_tl: "tl q \<noteq> [] \<Longrightarrow> last (tl q) = last q"
  by (cases q) auto

lemma seq_queue_end_hd:
  "seq_queue q \<Longrightarrow> q \<noteq> [] \<Longrightarrow> payload_end (hd q) \<Longrightarrow> tl q = []"
  by (cases q; cases "tl q") (auto simp: seq_queue_def)

lemma seq_queue_end_last:
  "seq_queue q \<Longrightarrow> q \<noteq> [] \<Longrightarrow> payload_end (hd q) \<Longrightarrow> payload_end (last q)"
  using seq_queue_end_hd[of q] by (cases q) auto

lemma all_slots_update:
  "batchers' s1 = (batchers' s)[b := sb1] \<Longrightarrow> b < length (batchers' s) \<Longrightarrow>
   length (queues' sb1) = length (queues' (batchers' s ! b)) \<Longrightarrow> all_slots s1 = all_slots s"
  by (auto simp: all_slots_def nth_list_update)

lemma slot_queue_update:
  assumes "batchers' s1 = (batchers' s)[b := sb1]" "b < length (batchers' s)"
    "k < length (queues' (batchers' s ! b))" "queues' sb1 = (queues' (batchers' s ! b))[k := q]"
  shows "slot_queue s1 = (slot_queue s)(BatchSlot b k := q)"
proof
  fix sl
  obtain b1 k1 where sl: "sl = BatchSlot b1 k1" by (cases sl)
  show "slot_queue s1 sl = ((slot_queue s)(BatchSlot b k := q)) sl"
    using assms by (auto simp: sl slot_queue_def nth_list_update)
qed

lemma slot_queue_same:
  assumes "batchers' s1 = (batchers' s)[b := sb1]" "queues' sb1 = queues' (batchers' s ! b)"
  shows "slot_queue s1 = slot_queue s"
proof
  fix sl
  obtain b1 k1 where sl: "sl = BatchSlot b1 k1" by (cases sl)
  show "slot_queue s1 sl = slot_queue s sl"
    using assms
    by (cases "b < length (batchers' s)") (auto simp: sl slot_queue_def nth_list_update list_update_beyond)
qed

lemma facade_slots:
  assumes "batchers' s1 = batchers' s"
  shows "all_slots s1 = all_slots s" and "slot_queue s1 = slot_queue s"
proof -
  show "slot_queue s1 = slot_queue s"
    using assms by (intro ext) (simp add: slot_queue_def)
  show "all_slots s1 = all_slots s"
    using assms by (simp add: all_slots_def)
qed

lemma batchers_wf_update:
  assumes "batchers_wf s" "batchers' s1 = (batchers' s)[b := sb1]"
    "batcher_idx' sb1 = batcher_idx' (batchers' s ! b)"
    "length (queues' sb1) = length (queues' (batchers' s ! b))"
    "- 1 \<le> max_active_slot' sb1" "max_active_slot' sb1 < int (length (queues' sb1))"
  shows "batchers_wf s1"
  unfolding batchers_wf_def
proof (intro allI impI)
  fix b1 assume "b1 < length (batchers' s1)"
  then have b1: "b1 < length (batchers' s)" using assms(2) by simp
  show "batcher_idx' (batchers' s1 ! b1) = b1
      \<and> - 1 \<le> max_active_slot' (batchers' s1 ! b1)
      \<and> max_active_slot' (batchers' s1 ! b1) < int (length (queues' (batchers' s1 ! b1)))"
  proof (cases "b1 = b")
    case True
    with b1 assms show ?thesis by (simp add: batchers_wf_def)
  next
    case False
    with b1 assms(1,2) show ?thesis by (simp add: batchers_wf_def)
  qed
qed

lemma Payload_props:
  "payload_cid (Payload qt st rp resp cf) = correlation_id (RequestHeader rp)"
  "payload_end (Payload qt st rp resp cf) = seq_end_flag (RequestHeader rp)"
  "complete_function' (Payload qt st rp resp cf) = cf"
  by (simp_all add: Payload_def payload_cid_def payload_end_def)

lemma ReleaseBatchSlot_empty_backlog:
  "backlog_queues' s = [] \<Longrightarrow>
   ReleaseBatchSlot s sl q = (s\<lparr>ready_batch_slots' := sl # ready_batch_slots' s\<rparr>, True, q, [])"
  by (simp add: ReleaseBatchSlot_def)

lemma ReleaseBatchSlot_promote_open:
  "backlog_queues' s = a # rest \<Longrightarrow> backlog_store s a \<noteq> [] \<Longrightarrow>
   \<not> payload_end (last (backlog_store s a)) \<Longrightarrow> c = payload_cid (last (backlog_store s a)) \<Longrightarrow>
   ReleaseBatchSlot s sl q =
     (s\<lparr>backlog_store := (backlog_store s)(a := []), backlog_queues' := rest,
        sequence_to_backlog_map' := (sequence_to_backlog_map' s)(c := None),
        sequence_to_batchslot_map' := (sequence_to_batchslot_map' s)(c \<mapsto> sl)\<rparr>,
      False, backlog_store s a,
      (if sequence_to_batchslot_map' s c \<noteq> None then [Error_backlog_conflict c] else []))"
  by (simp add: ReleaseBatchSlot_def Let_def)

lemma ReleaseBatchSlot_promote_end:
  "backlog_queues' s = a # rest \<Longrightarrow> backlog_store s a \<noteq> [] \<Longrightarrow>
   payload_end (last (backlog_store s a)) \<Longrightarrow>
   ReleaseBatchSlot s sl q =
     (s\<lparr>backlog_store := (backlog_store s)(a := []), backlog_queues' := rest\<rparr>,
      False, backlog_store s a, [])"
  by (simp add: ReleaseBatchSlot_def Let_def)

lemma all_slots_eqI:
  assumes "length (batchers' s1) = length (batchers' s)"
    and "\<forall>b<length (batchers' s). length (queues' (batchers' s1 ! b)) = length (queues' (batchers' s ! b))"
  shows "all_slots s1 = all_slots s"
  using assms by (auto simp: all_slots_def)

lemma collect_slots_shape:
  assumes b: "b < length (batchers' s)"
  shows "length (batchers' (fst (collect_slots b n s))) = length (batchers' s)"
    and "length (queues' (batchers' (fst (collect_slots b n s)) ! b)) = length (queues' (batchers' s ! b))"
    and "all_slots (fst (collect_slots b n s)) = all_slots s"
proof -
  note f = collect_slots_frame[OF b, of n]
  show 1: "length (batchers' (fst (collect_slots b n s))) = length (batchers' s)"
    using f by simp
  show 2: "length (queues' (batchers' (fst (collect_slots b n s)) ! b)) = length (queues' (batchers' s ! b))"
    using f by (simp add: same_batcher_def)
  show "all_slots (fst (collect_slots b n s)) = all_slots s"
  proof (rule all_slots_eqI[OF 1], intro allI impI)
    fix b1 assume "b1 < length (batchers' s)"
    show "length (queues' (batchers' (fst (collect_slots b n s)) ! b1)) = length (queues' (batchers' s ! b1))"
      using f 2 by (cases "b1 = b") simp_all
  qed
qed

lemma adjust_max_active_slot_le: "adjust_max_active_slot a m \<le> m"
proof (induction a m rule: adjust_max_active_slot.induct)
  case (1 active max_active)
  show ?case
  proof (cases "max_active \<ge> 0 \<and> \<not> active ! nat max_active")
    case True
    then have "adjust_max_active_slot active max_active = adjust_max_active_slot active (max_active - 1)"
      by (subst adjust_max_active_slot.simps) simp
    with 1 True show ?thesis by simp
  next
    case False
    then have "adjust_max_active_slot active max_active = max_active"
      by (subst adjust_max_active_slot.simps) auto
    then show ?thesis by simp
  qed
qed

lemma adjust_max_active_slot_ge: "- 1 \<le> m \<Longrightarrow> - 1 \<le> adjust_max_active_slot a m"
proof (induction a m rule: adjust_max_active_slot.induct)
  case (1 active max_active)
  show ?case
  proof (cases "max_active \<ge> 0 \<and> \<not> active ! nat max_active")
    case True
    then have "adjust_max_active_slot active max_active = adjust_max_active_slot active (max_active - 1)"
      by (subst adjust_max_active_slot.simps) simp
    with 1 True show ?thesis by simp
  next
    case False
    then have "adjust_max_active_slot active max_active = max_active"
      by (subst adjust_max_active_slot.simps) auto
    with "1.prems" show ?thesis by simp
  qed
qed

lemma DelayScheduler_state:
  "fst (DelayScheduler s i c r) = s\<lparr>queue_request_cnts' := (queue_request_cnts' s)[i := c]\<rparr>"
  by (simp add: DelayScheduler_def Let_def)

lemma SchedulerThread_pass_delay:
  assumes "delay_cnt (batchers' s ! b) > 0"
    and "w = snd (DelayScheduler s (batcher_idx' (batchers' s ! b))
                   (sum_list (map length (queues' (batchers' s ! b)))) (delay_cnt (batchers' s ! b)))"
  shows "SchedulerThread_pass s b =
       (s\<lparr>queue_request_cnts' := (queue_request_cnts' s)
             [batcher_idx' (batchers' s ! b) := sum_list (map length (queues' (batchers' s ! b)))],
          batchers' := (batchers' s)
             [b := (if w then batchers' s ! b else (batchers' s ! b)\<lparr>delay_cnt := 0\<rparr>)]\<rparr>,
        [], 10 * 1000, [])"
proof -
  let ?sb = "batchers' s ! b"
  obtain s1 wait where d: "DelayScheduler s (batcher_idx' ?sb) (sum_list (map length (queues' ?sb))) (delay_cnt ?sb) = (s1, wait)"
    by (cases "DelayScheduler s (batcher_idx' ?sb) (sum_list (map length (queues' ?sb))) (delay_cnt ?sb)") auto
  have s1: "s1 = s\<lparr>queue_request_cnts' := (queue_request_cnts' s)
             [batcher_idx' ?sb := sum_list (map length (queues' ?sb))]\<rparr>"
    using DelayScheduler_state[of s "batcher_idx' ?sb" "sum_list (map length (queues' ?sb))" "delay_cnt ?sb"] d
    by simp
  have w: "w = wait" using assms(2) d by simp
  show ?thesis
    unfolding w using assms(1) d
    by (cases wait) (simp_all add: SchedulerThread_pass_def Let_def s1 del: list_update_id)
qed

lemma fold_push_slots:
  "fold (\<lambda>b s. s\<lparr>ready_batch_slots' := BatchSlot c b # ready_batch_slots' s\<rparr>) [0..<n] s =
     s\<lparr>ready_batch_slots' := rev (map (BatchSlot c) [0..<n]) @ ready_batch_slots' s\<rparr>"
  by (induction n) simp_all

lemma Create_add_runner_eq:
  "Create_add_runner bsz d st ct nr c s =
     s\<lparr>batchers' := batchers' s @ [SequenceBatch c bsz d st ct nr],
       ready_batch_slots' := rev (map (BatchSlot c) [0..<bsz]) @ ready_batch_slots' s\<rparr>"
  by (simp add: Create_add_runner_def fold_push_slots)

lemma fold_add_runner:
  assumes "batchers' s0 = []" "ready_batch_slots' s0 = []"
    and s_def: "s = fold (Create_add_runner bsz d st ct nr) [0..<r] s0"
  shows "batchers' s = map (\<lambda>c. SequenceBatch c bsz d st ct nr) [0..<r]"
    and "distinct (ready_batch_slots' s)"
    and "set (ready_batch_slots' s) = {BatchSlot c k | c k. c < r \<and> k < bsz}"
    and "sequence_to_batchslot_map' s = sequence_to_batchslot_map' s0"
    and "sequence_to_backlog_map' s = sequence_to_backlog_map' s0"
    and "backlog_queues' s = backlog_queues' s0"
    and "backlog_store s = backlog_store s0"
    and "backlog_next s = backlog_next s0"
proof -
  have "batchers' s = map (\<lambda>c. SequenceBatch c bsz d st ct nr) [0..<r]
      \<and> distinct (ready_batch_slots' s)
      \<and> set (ready_batch_slots' s) = {BatchSlot c k | c k. c < r \<and> k < bsz}
      \<and> sequence_to_batchslot_map' s = sequence_to_batchslot_map' s0
      \<and> sequence_to_backlog_map' s = sequence_to_backlog_map' s0
      \<and> backlog_queues' s = backlog_queues' s0
      \<and> backlog_store s = backlog_store s0
      \<and> backlog_next s = backlog_next s0"
    unfolding s_def
  proof (induction r)
    case 0
    show ?case using assms(1,2) by simp
  next
    case (Suc r)
    let ?s = "fold (Create_add_runner bsz d st ct nr) [0..<r] s0"
    have e: "fold (Create_add_runner bsz d st ct nr) [0..<Suc r] s0 =
        ?s\<lparr>batchers' := batchers' ?s @ [SequenceBatch r bsz d st ct nr],
           ready_batch_slots' := rev (map (BatchSlot r) [0..<bsz]) @ ready_batch_slots' ?s\<rparr>"
      by (simp add: Create_add_runner_eq)
    have d: "distinct (rev (map (BatchSlot r) [0..<bsz]))"
      by (simp add: distinct_map inj_on_def)
    have "{BatchSlot c k | c k. c < Suc r \<and> k < bsz} =
        BatchSlot r ` {0..<bsz} \<union> {BatchSlot c k | c k. c < r \<and> k < bsz}"
      by (auto simp: less_Suc_eq)
    with Suc d show ?case unfolding e by auto
  qed
  then show "batchers' s = map (\<lambda>c. SequenceBatch c bsz d st ct nr) [0..<r]"
    and "distinct (ready_batch_slots' s)"
    and "set (ready_batch_slots' s) = {BatchSlot c k | c k. c < r \<and> k < bsz}"
    and "sequence_to_batchslot_map' s = sequence_to_batchslot_map' s0"
    and "sequence_to_backlog_map' s = sequence_to_backlog_map' s0"
    and "backlog_queues' s = backlog_queues' s0"
    and "backlog_store s = backlog_store s0"
    and "backlog_next s = backlog_next s0"
    by simp_all
qed

lemma Create_props:
  assumes c: "Create config runner_cnt backlog_delay delay = Inr s"
    and n: "batch_sz = nat (max 1 (max_batch_size config))"
  shows "\<exists>st ct nr. batchers' s = map (\<lambda>c. SequenceBatch c batch_sz delay st ct nr) [0..<runner_cnt]"
    and "distinct (ready_batch_slots' s)"
    and "set (ready_batch_slots' s) = {BatchSlot c k | c k. c < runner_cnt \<and> k < batch_sz}"
    and "sequence_to_batchslot_map' s = Map.empty"
    and "sequence_to_backlog_map' s = Map.empty"
    and "backlog_queues' s = []"
proof -
  let ?s0 = "\<lparr>batchers' = [], ready_batch_slots' = [],
                   sequence_to_batchslot_map' = Map.empty,
                   sequence_to_backlog_map' = Map.empty,
                   backlog_queues' = [], backlog_store = (\<lambda>_. []), backlog_next = 0,
                   queue_request_cnts' = replicate runner_cnt 0,
                   backlog_delay_cnt' = backlog_delay\<rparr>"
  from c obtain st ct nr where
    s: "s = fold (Create_add_runner batch_sz delay st ct nr) [0..<runner_cnt] ?s0"
    unfolding Create_def Let_def n by (auto split: sum.splits)
  note f = fold_add_runner[OF _ _ s]
  show "\<exists>st ct nr. batchers' s = map (\<lambda>c. SequenceBatch c batch_sz delay st ct nr) [0..<runner_cnt]"
    using f(1) by auto
  show "distinct (ready_batch_slots' s)" using f(2) by simp
  show "set (ready_batch_slots' s) = {BatchSlot c k | c k. c < runner_cnt \<and> k < batch_sz}"
    using f(3) by simp
  show "sequence_to_batchslot_map' s = Map.empty" using f(4) by simp
  show "sequence_to_backlog_map' s = Map.empty" using f(5) by simp
  show "backlog_queues' s = []" using f(6) by simp
qed

lemma Create_all_slots:
  assumes c: "Create config runner_cnt backlog_delay delay = Inr s"
    and n: "batch_sz = nat (max 1 (max_batch_size config))"
  shows "all_slots s = {BatchSlot c k | c k. c < runner_cnt \<and> k < batch_sz}"
    and "\<forall>sl\<in>all_slots s. slot_queue s sl = []"
    and "batchers_wf s"
proof -
  from Create_props(1)[OF c n] obtain st ct nr where
    b: "batchers' s = map (\<lambda>c. SequenceBatch c batch_sz delay st ct nr) [0..<runner_cnt]" by auto
  show "all_slots s = {BatchSlot c k | c k. c < runner_cnt \<and> k < batch_sz}"
    by (auto simp: all_slots_def b SequenceBatch_def)
  show "\<forall>sl\<in>all_slots s. slot_queue s sl = []"
    by (auto simp: all_slots_def slot_queue_def b SequenceBatch_def)
  show "batchers_wf s"
    by (auto simp: batchers_wf_def b SequenceBatch_def)
qed

end
